theory Spec2Isabelle
  imports Main "HOL-Library.Sublist"
begin

section \<open>JavaScript values handled by the client code\<close>

text \<open>
  The client functions take values of type \<open>unknown\<close> or \<open>any\<close>: whatever the
  database client hands back. They are modelled as the values of JSON plus
  \<open>undefined\<close>. An object is the list of its properties in insertion order.
  Numbers are integers here: the code only ever tests a number for being falsy.
\<close>

datatype jsval =
    JUndefined
  | JNull
  | JBool bool
  | JNum int
  | JStr string
  | JArr "jsval list"
  | JObj "(string \<times> jsval) list"

text \<open>\<open>typeof v === 'object'\<close>: true of objects, arrays and \<open>null\<close>.\<close>

fun typeof_object :: "jsval \<Rightarrow> bool" where
  "typeof_object JNull = True"
| "typeof_object (JArr xs) = True"
| "typeof_object (JObj kvs) = True"
| "typeof_object v = False"

text \<open>\<open>typeof v === 'string'\<close>.\<close>

fun typeof_string :: "jsval \<Rightarrow> bool" where
  "typeof_string (JStr s) = True"
| "typeof_string v = False"

text \<open>
  \<open>k in v\<close> for the property names this code asks about (\<open>code\<close>, \<open>message\<close>):
  none of them is an index or \<open>length\<close>, so an array has none of them.
\<close>

fun has_property :: "string \<Rightarrow> jsval \<Rightarrow> bool" where
  "has_property k (JObj kvs) = (map_of kvs k \<noteq> None)"
| "has_property k v = False"

text \<open>\<open>v.k\<close> on a value that is not \<open>null\<close> or \<open>undefined\<close>: a missing property reads as \<open>undefined\<close>.\<close>

fun get_prop :: "jsval \<Rightarrow> string \<Rightarrow> jsval" where
  "get_prop (JObj kvs) k = (case map_of kvs k of Some v \<Rightarrow> v | None \<Rightarrow> JUndefined)"
| "get_prop v k = JUndefined"

text \<open>The characters of a value already known to be a string.\<close>

fun str_of :: "jsval \<Rightarrow> string" where
  "str_of (JStr s) = s"
| "str_of v = []"

text \<open>Truthiness, as \<open>||\<close> and \<open>? :\<close> test it.\<close>

fun truthy :: "jsval \<Rightarrow> bool" where
  "truthy JUndefined = False"
| "truthy JNull = False"
| "truthy (JBool b) = b"
| "truthy (JNum n) = (n \<noteq> 0)"
| "truthy (JStr s) = (s \<noteq> [])"
| "truthy (JArr xs) = True"
| "truthy (JObj kvs) = True"

text \<open>\<open>a || b\<close>.\<close>

definition js_or :: "jsval \<Rightarrow> jsval \<Rightarrow> jsval" where
  "js_or a b = (if truthy a then a else b)"

text \<open>\<open>s.includes(t)\<close>: \<open>t\<close> occurs in \<open>s\<close> as a contiguous substring.\<close>

fun str_includes :: "string \<Rightarrow> string \<Rightarrow> bool" where
  "str_includes [] t = (t = [])"
| "str_includes (c # cs) t = (prefix t (c # cs) \<or> str_includes cs t)"

text \<open>
  A value inside a template literal. A string is spliced in as it is. For any
  other value the text is the language's \<open>ToString\<close> of it, which is not modelled:
  it is passed in as \<open>other\<close>.
\<close>

definition template :: "string \<Rightarrow> jsval \<Rightarrow> string" where
  "template other v = (case v of JStr s \<Rightarrow> s | _ \<Rightarrow> other)"

section \<open>\<open>app/utils/error-handler.ts\<close>\<close>

definition unknown_error_message :: string where
  "unknown_error_message = ''An unknown error occurred. Please try again.''"

text \<open>
  \<open>details_text\<close> is what \<open>${pgError.details}\<close> prints when the details are not a string.
\<close>

definition handleDatabaseError :: "string \<Rightarrow> jsval \<Rightarrow> string" where
  "handleDatabaseError details_text error =
     (if typeof_object error \<and> error \<noteq> JNull then
        (if has_property ''code'' error \<and> has_property ''message'' error
             \<and> typeof_string (get_prop error ''message'') then
           (let code = get_prop error ''code'';
                message = str_of (get_prop error ''message'');
                details = get_prop error ''details''
            in if code = JStr ''42P01'' then
                 ''The database table does not exist. Please run the SQL setup scripts.''
               else if code = JStr ''23505'' then
                 ''A record with this information already exists.''
               else if code = JStr ''23503'' then
                 ''This operation references a record that does not exist.''
               else if code = JStr ''42501'' then
                 ''You do not have permission to perform this operation.''
               else if code = JStr ''28000'' then
                 ''Authentication failed. Please log in again.''
               else if code = JStr ''22P02'' then
                 ''Invalid UUID or data format.''
               else if code = JStr ''54001'' then
                 (if str_includes message ''infinite recursion'' then
                    ''Infinite recursion detected in policy. Run the fix-recursive-policy.sql script.''
                  else ''The database query is too complex.'')
               else
                 ''Database error: '' @ message
                   @ (if truthy details then '' ('' @ template details_text details @ '')'' else []))
         else if has_property ''message'' error \<and> typeof_string (get_prop error ''message'') then
           (if str_includes (str_of (get_prop error ''message'')) ''infinite recursion'' then
              ''Infinite recursion detected in policy. Run the fix-recursive-policy.sql script to fix this issue.''
            else str_of (get_prop error ''message''))
         else unknown_error_message)
      else unknown_error_message)"

definition isTableNotFoundError :: "jsval \<Rightarrow> bool" where
  "isTableNotFoundError error =
     (if typeof_object error \<and> error \<noteq> JNull \<and> has_property ''code'' error then
        get_prop error ''code'' = JStr ''42P01''
      else if typeof_object error \<and> error \<noteq> JNull \<and> has_property ''message'' error
                \<and> typeof_string (get_prop error ''message'') then
        str_includes (str_of (get_prop error ''message'')) ''relation''
          \<and> str_includes (str_of (get_prop error ''message'')) ''does not exist''
      else False)"

definition isRecursionError :: "jsval \<Rightarrow> bool" where
  "isRecursionError error =
     (if typeof_object error \<and> error \<noteq> JNull \<and> has_property ''message'' error
           \<and> typeof_string (get_prop error ''message'') then
        str_includes (str_of (get_prop error ''message'')) ''infinite recursion''
      else False)"

text \<open>The two texts that \<open>createErrorWithHelp\<close> appends; the first spans four source lines.\<close>

definition table_setup_help :: string where
  "table_setup_help =
     '' Please make sure you've run all SQL setup scripts in this order: '' @ [CHR 0x0A]
     @ ''    1. schema.sql'' @ [CHR 0x0A]
     @ ''    2. schema-enhancements-fixed.sql '' @ [CHR 0x0A]
     @ ''    3. schema-direct-messaging.sql''"

definition recursion_help :: string where
  "recursion_help = '' To fix this problem, run the fix-recursive-policy.sql script.''"

definition createErrorWithHelp :: "string \<Rightarrow> jsval \<Rightarrow> string" where
  "createErrorWithHelp details_text error =
     (let baseMessage = handleDatabaseError details_text error
      in if isTableNotFoundError error then baseMessage @ table_setup_help
         else if isRecursionError error then baseMessage @ recursion_help
         else baseMessage)"

section \<open>\<open>ChatInterface\<close>: validation of fetched messages\<close>

text \<open>
  The one error this code can raise by itself: reading a property of \<open>null\<close> or
  \<open>undefined\<close>.
\<close>

datatype js_error = TypeError

text \<open>
  The schema library checks \<open>.uuid()\<close> and \<open>.email()\<close> with regular expressions of its
  own. They are not part of this repository and are taken as given.
\<close>

record zod =
  uuid_format :: "string \<Rightarrow> bool"
  email_format :: "string \<Rightarrow> bool"

text \<open>
  The checks of the schema's fields: \<open>z.string()\<close>, \<open>z.string().uuid()\<close>,
  \<open>z.string().email()\<close>, and \<open>.optional()\<close>, which also accepts \<open>undefined\<close>.
\<close>

definition z_string :: "jsval \<Rightarrow> bool" where
  "z_string v = typeof_string v"

definition z_string_uuid :: "zod \<Rightarrow> jsval \<Rightarrow> bool" where
  "z_string_uuid z v \<longleftrightarrow> typeof_string v \<and> uuid_format z (str_of v)"

definition z_string_email :: "zod \<Rightarrow> jsval \<Rightarrow> bool" where
  "z_string_email z v \<longleftrightarrow> typeof_string v \<and> email_format z (str_of v)"

definition z_optional :: "(jsval \<Rightarrow> bool) \<Rightarrow> jsval \<Rightarrow> bool" where
  "z_optional schema v \<longleftrightarrow> v = JUndefined \<or> schema v"

text \<open>
  The parsed object has the schema's keys, in the schema's order, and no others. A key
  whose value is \<open>undefined\<close> is there only when the input has it.
\<close>

definition optional_key :: "jsval \<Rightarrow> string \<Rightarrow> (string \<times> jsval) list" where
  "optional_key input k =
     (if get_prop input k \<noteq> JUndefined \<or> has_property k input
      then [(k, get_prop input k)] else [])"

text \<open>\<open>MessageSchema.parse(input)\<close>; \<open>None\<close> when it throws.\<close>

definition MessageSchema_parse :: "zod \<Rightarrow> jsval \<Rightarrow> jsval option" where
  "MessageSchema_parse z input =
     (case input of
        JObj kvs \<Rightarrow>
          if z_string_uuid z (get_prop input ''id'')
             \<and> z_string (get_prop input ''content'')
             \<and> z_string (get_prop input ''created_at'')
             \<and> z_string_uuid z (get_prop input ''user_id'')
             \<and> z_optional (z_string_email z) (get_prop input ''user_email'')
             \<and> z_optional (z_string_uuid z) (get_prop input ''room_id'')
          then Some (JObj ([(''id'', get_prop input ''id''),
                            (''content'', get_prop input ''content''),
                            (''created_at'', get_prop input ''created_at''),
                            (''user_id'', get_prop input ''user_id'')]
                           @ optional_key input ''user_email''
                           @ optional_key input ''room_id''))
          else None
      | _ \<Rightarrow> None)"

text \<open>
  The object built in the \<open>catch\<close> block. Reading \<open>message.id\<close> throws when the row is
  \<open>null\<close> or \<open>undefined\<close>. \<open>now_iso\<close> is \<open>new Date().toISOString()\<close>.
\<close>

definition message_defaults :: "string \<Rightarrow> jsval \<Rightarrow> jsval \<Rightarrow> js_error + jsval" where
  "message_defaults now_iso currentRoom message =
     (if message = JNull \<or> message = JUndefined then Inl TypeError
      else Inr (JObj
        [(''id'', js_or (get_prop message ''id'') (JStr [])),
         (''content'', js_or (get_prop message ''content'') (JStr [])),
         (''created_at'', js_or (get_prop message ''created_at'') (JStr now_iso)),
         (''user_id'', js_or (get_prop message ''user_id'') (JStr [])),
         (''user_email'', js_or (get_prop message ''user_email'') (JStr ''unknown@example.com'')),
         (''room_id'', js_or (get_prop message ''room_id'') (get_prop currentRoom ''id''))]))"

text \<open>The callback of \<open>data.map\<close>.\<close>

definition validate_message :: "zod \<Rightarrow> string \<Rightarrow> jsval \<Rightarrow> jsval \<Rightarrow> js_error + jsval" where
  "validate_message z now_iso currentRoom message =
     (case MessageSchema_parse z message of
        Some parsed \<Rightarrow> Inr parsed
      | None \<Rightarrow> message_defaults now_iso currentRoom message)"

text \<open>
  \<open>data.map(...)\<close>, from row number \<open>i\<close> on. The clock is read again for each row that
  needs it: \<open>clock i\<close> is its reading at row \<open>i\<close>. An exception in the callback ends
  the whole map.
\<close>

fun validatedMessages ::
    "zod \<Rightarrow> (nat \<Rightarrow> string) \<Rightarrow> jsval \<Rightarrow> nat \<Rightarrow> jsval list \<Rightarrow> js_error + jsval list" where
  "validatedMessages z clock currentRoom i [] = Inr []"
| "validatedMessages z clock currentRoom i (message # data) =
     (case validate_message z (clock i) currentRoom message of
        Inl e \<Rightarrow> Inl e
      | Inr v \<Rightarrow>
          (case validatedMessages z clock currentRoom (Suc i) data of
             Inl e \<Rightarrow> Inl e
           | Inr vs \<Rightarrow> Inr (v # vs)))"

text \<open>The component's state that \<open>fetchMessages\<close> writes.\<close>

record chat_interface =
  ci_messages :: "jsval list"
  ci_loading :: bool
  ci_error :: "string option"

text \<open>
  \<open>fetchMessages\<close>, from the moment the query has answered with \<open>data\<close> and \<open>error\<close>.
  A \<open>data\<close> that is not an array has no \<open>map\<close>, which raises inside the inner \<open>try\<close>.
\<close>

definition fetchMessages ::
    "zod \<Rightarrow> string \<Rightarrow> (nat \<Rightarrow> string) \<Rightarrow> jsval \<Rightarrow> jsval \<Rightarrow> jsval
       \<Rightarrow> chat_interface \<Rightarrow> chat_interface" where
  "fetchMessages z details_text clock currentRoom data error st =
     (if \<not> truthy currentRoom then st
      else
        let st1 = st\<lparr>ci_loading := True, ci_error := None\<rparr>;
            st2 =
              (if truthy error then
                 st1\<lparr>ci_error := Some (createErrorWithHelp details_text error)\<rparr>
               else if truthy data then
                 (case data of
                    JArr rows \<Rightarrow>
                      (case validatedMessages z clock currentRoom 0 rows of
                         Inr validated \<Rightarrow> st1\<lparr>ci_messages := validated\<rparr>
                       | Inl e \<Rightarrow> st1\<lparr>ci_error := Some ''Message data validation error''\<rparr>)
                  | _ \<Rightarrow> st1\<lparr>ci_error := Some ''Message data validation error''\<rparr>)
               else st1\<lparr>ci_messages := []\<rparr>)
        in st2\<lparr>ci_loading := False\<rparr>)"

text \<open>A row that has properties to read: anything but \<open>null\<close> and \<open>undefined\<close>.\<close>

definition is_row :: "jsval \<Rightarrow> bool" where
  "is_row v \<longleftrightarrow> v \<noteq> JNull \<and> v \<noteq> JUndefined"

section \<open>The database: \<open>supabase/migrations\<close>\<close>

subsection \<open>SQL's three-valued logic\<close>

text \<open>
  A nullable column holds an \<open>option\<close>; \<open>None\<close> is \<open>NULL\<close>. A comparison with
  \<open>NULL\<close> is \<open>NULL\<close>, and a policy lets a row through only when its expression is
  true. \<open>x IN (y1, ..., yn)\<close> is \<open>x = y1 OR ... OR x = yn\<close>.
\<close>

type_synonym sqlbool = "bool option"

definition sql_eq :: "'a option \<Rightarrow> 'a option \<Rightarrow> sqlbool" where
  "sql_eq a b =
     (case a of None \<Rightarrow> None
      | Some x \<Rightarrow> (case b of None \<Rightarrow> None | Some y \<Rightarrow> Some (x = y)))"

fun sql_or :: "sqlbool \<Rightarrow> sqlbool \<Rightarrow> sqlbool" where
  "sql_or (Some True) b = Some True"
| "sql_or a (Some True) = Some True"
| "sql_or (Some False) (Some False) = Some False"
| "sql_or a b = None"

fun sql_and :: "sqlbool \<Rightarrow> sqlbool \<Rightarrow> sqlbool" where
  "sql_and (Some False) b = Some False"
| "sql_and a (Some False) = Some False"
| "sql_and (Some True) (Some True) = Some True"
| "sql_and a b = None"

definition sql_in :: "'a option \<Rightarrow> 'a option list \<Rightarrow> sqlbool" where
  "sql_in x ys = foldr (\<lambda>y r. sql_or (sql_eq x y) r) ys (Some False)"

definition is_true :: "sqlbool \<Rightarrow> bool" where
  "is_true b = (b = Some True)"

subsection \<open>Tables\<close>

text \<open>
  One record per table, one field per column, named after the column with the table's
  initials in front. A column declared \<open>NOT NULL\<close> (or a primary key) holds a value,
  any other an \<open>option\<close>. \<open>auth.users\<close> belongs to the platform; only the set of its
  ids matters here, as the target of the foreign keys. Ids are only ever compared for
  equality and are numbers here; so are the points in time.
\<close>

type_synonym uuid = nat
type_synonym timestamptz = int

record room =
  r_id :: uuid
  r_name :: string
  r_description :: "string option"
  r_created_by :: uuid
  r_is_private :: "bool option"
  r_created_at :: timestamptz

record room_member =
  rm_id :: uuid
  rm_room_id :: uuid
  rm_user_id :: uuid
  rm_joined_at :: timestamptz

record message =
  m_id :: uuid
  m_content :: string
  m_user_id :: uuid
  m_user_email :: string
  m_created_at :: timestamptz
  m_room_id :: "uuid option"

record direct_conversation =
  dc_id :: uuid
  dc_created_at :: timestamptz
  dc_updated_at :: timestamptz

record direct_participant =
  dp_id :: uuid
  dp_conversation_id :: uuid
  dp_user_id :: uuid
  dp_joined_at :: timestamptz

record direct_message =
  dm_id :: uuid
  dm_conversation_id :: uuid
  dm_sender_id :: uuid
  dm_content :: string
  dm_created_at :: timestamptz

record database =
  auth_users :: "uuid set"
  rooms :: "room list"
  room_members :: "room_member list"
  messages :: "message list"
  direct_conversations :: "direct_conversation list"
  direct_participants :: "direct_participant list"
  direct_messages :: "direct_message list"

text \<open>The errors a statement can end with, by their SQLSTATE.\<close>

datatype sql_error =
    UniqueViolation           \<comment> \<open>23505\<close>
  | ForeignKeyViolation       \<comment> \<open>23503\<close>
  | InsufficientPrivilege     \<comment> \<open>42501: the new row violates a row-level security policy\<close>
  | InfiniteRecursion         \<comment> \<open>42P17: infinite recursion detected in policy\<close>

text \<open>
  A statement that ends with an error is rolled back: the database is what it was.
\<close>

definition after_statement :: "database \<Rightarrow> sql_error + database \<Rightarrow> database" where
  "after_statement db r = (case r of Inl e \<Rightarrow> db | Inr db' \<Rightarrow> db')"

subsection \<open>How the server applies policies\<close>

text \<open>
  The tables of these migrations that have row-level security.
\<close>

datatype relation =
    Rooms
  | Room_members
  | Messages
  | Direct_conversations
  | Direct_participants
  | Direct_messages

definition all_relations :: "relation list" where
  "all_relations =
     [Rooms, Room_members, Messages, Direct_conversations, Direct_participants,
      Direct_messages]"

text \<open>
  A statement of a caller who is subject to row-level security (every client of the
  application is) reads a table through the table's policies, and the subqueries of those
  policies read their tables through the policies of these, and so on. While the server
  adds the policies of a table it keeps that table on a list, \<open>active\<close>; a table that
  comes up again while it is on the list ends the statement with 42P17, ``infinite
  recursion detected in policy''. All subqueries of all policies of a table are
  expanded, whatever the rows are, so the error does not depend on the data.

  \<open>remaining\<close> counts the tables not on the list: it is what makes the expansion end.
\<close>

definition remaining :: "relation list \<Rightarrow> nat" where
  "remaining active = length [t \<leftarrow> all_relations. t \<notin> set active]"

subsection \<open>\<open>02_chat_rooms.sql\<close>: policies on rooms, room members and messages\<close>

text \<open>
  \<open>uid\<close> is \<open>auth.uid()\<close>: the caller's id, \<open>NULL\<close> for a caller who is not signed in.
  Each subquery is given the rows of its tables that the caller can see.
\<close>

text \<open>\<open>SELECT room_id FROM public.room_members WHERE user_id = auth.uid()\<close>\<close>

definition own_room_ids :: "room_member list \<Rightarrow> uuid option \<Rightarrow> uuid option list" where
  "own_room_ids members uid =
     [Some (rm_room_id rm). rm \<leftarrow> members, is_true (sql_eq (Some (rm_user_id rm)) uid)]"

text \<open>\<open>SELECT id FROM public.rooms WHERE is_private = false\<close>\<close>

definition public_room_ids :: "room list \<Rightarrow> uuid option list" where
  "public_room_ids rs =
     [Some (r_id r). r \<leftarrow> rs, is_true (sql_eq (r_is_private r) (Some False))]"

text \<open>
  The subquery of the second policy on \<open>room_members\<close>:
  \<open>SELECT r.id FROM public.rooms r LEFT JOIN public.room_members rm
    ON r.id = rm.room_id AND rm.user_id = auth.uid()
    WHERE r.is_private = false OR rm.user_id IS NOT NULL OR r.created_by = auth.uid()\<close>.
  A room without a matching member row is joined to one row of \<open>NULL\<close>s.
\<close>

definition left_join_own_members ::
    "room_member list \<Rightarrow> uuid option \<Rightarrow> room \<Rightarrow> room_member option list" where
  "left_join_own_members members uid r =
     (case [rm \<leftarrow> members.
              is_true (sql_and (sql_eq (Some (r_id r)) (Some (rm_room_id rm)))
                               (sql_eq (Some (rm_user_id rm)) uid))] of
        [] \<Rightarrow> [None]
      | matched \<Rightarrow> map Some matched)"

definition rooms_open_to ::
    "room list \<Rightarrow> room_member list \<Rightarrow> uuid option \<Rightarrow> uuid option list" where
  "rooms_open_to rs members uid =
     [Some (r_id r).
        r \<leftarrow> rs,
        rm \<leftarrow> left_join_own_members members uid r,
        is_true (sql_or (sql_or (sql_eq (r_is_private r) (Some False)) (Some (rm \<noteq> None)))
                        (sql_eq (Some (r_created_by r)) uid))]"

text \<open>Policy ``Public rooms are viewable by everyone'', \<open>FOR SELECT\<close> on \<open>rooms\<close>.\<close>

definition public_rooms_policy :: "room \<Rightarrow> sqlbool" where
  "public_rooms_policy r = sql_eq (r_is_private r) (Some False)"

text \<open>Policy ``Private rooms are viewable only by members'', \<open>FOR SELECT\<close> on \<open>rooms\<close>.\<close>

definition private_rooms_policy :: "room_member list \<Rightarrow> uuid option \<Rightarrow> room \<Rightarrow> sqlbool" where
  "private_rooms_policy members uid r =
     sql_or (sql_eq (r_is_private r) (Some False))
       (sql_in (Some (r_id r)) (own_room_ids members uid))"

text \<open>
  Policy ``Users can view their own room memberships'', \<open>FOR SELECT\<close> on
  \<open>room_members\<close>.
\<close>

definition own_memberships_policy :: "uuid option \<Rightarrow> room_member \<Rightarrow> sqlbool" where
  "own_memberships_policy uid rm = sql_eq (Some (rm_user_id rm)) uid"

text \<open>
  Policy ``Users can see other members in their rooms'', \<open>FOR SELECT\<close> on
  \<open>room_members\<close>.
\<close>

definition other_members_policy ::
    "room list \<Rightarrow> room_member list \<Rightarrow> uuid option \<Rightarrow> room_member \<Rightarrow> sqlbool" where
  "other_members_policy rs members uid rm =
     sql_in (Some (rm_room_id rm)) (rooms_open_to rs members uid)"

text \<open>
  The rows of \<open>rooms\<close> and of \<open>room_members\<close> that a caller can see. The policies of one
  table are permissive policies for the same command, so a row is let through when their
  disjunction is true. The policy on \<open>rooms\<close> reads \<open>room_members\<close>, and the second
  policy on \<open>room_members\<close> reads \<open>rooms\<close> and \<open>room_members\<close>.
\<close>

function visible_rooms :: "relation list \<Rightarrow> database \<Rightarrow> uuid option \<Rightarrow> sql_error + room list"
  and visible_room_members ::
    "relation list \<Rightarrow> database \<Rightarrow> uuid option \<Rightarrow> sql_error + room_member list" where
  "visible_rooms active db uid =
     (if Rooms \<in> set active then Inl InfiniteRecursion
      else
        (case visible_room_members (Rooms # active) db uid of
           Inl e \<Rightarrow> Inl e
         | Inr members \<Rightarrow>
             Inr [r \<leftarrow> rooms db.
                    is_true (sql_or (public_rooms_policy r)
                                    (private_rooms_policy members uid r))]))"
| "visible_room_members active db uid =
     (if Room_members \<in> set active then Inl InfiniteRecursion
      else
        (case visible_rooms (Room_members # active) db uid of
           Inl e \<Rightarrow> Inl e
         | Inr rs \<Rightarrow>
             (case visible_room_members (Room_members # active) db uid of
                Inl e \<Rightarrow> Inl e
              | Inr members \<Rightarrow>
                  Inr [rm \<leftarrow> room_members db.
                         is_true (sql_or (own_memberships_policy uid rm)
                                         (other_members_policy rs members uid rm))])))"
  by pat_completeness auto
termination
proof (relation "measure (\<lambda>x. case x of Inl (active, db, uid) \<Rightarrow> remaining active
                                     | Inr (active, db, uid) \<Rightarrow> remaining active)")
  show "wf (measure (\<lambda>x. case x of Inl (active, db, uid) \<Rightarrow> remaining active
                                  | Inr (active, db, uid) \<Rightarrow> remaining active))"
    by simp
next
  fix active :: "relation list" and db :: database and uid :: "uuid option"
  assume "Rooms \<notin> set active"
  then have "remaining (Rooms # active) < remaining active"
    by (simp add: remaining_def all_relations_def)
  then show "(Inr (Rooms # active, db, uid), Inl (active, db, uid))
      \<in> measure (\<lambda>x. case x of Inl (active, db, uid) \<Rightarrow> remaining active
                               | Inr (active, db, uid) \<Rightarrow> remaining active)"
    by simp
next
  fix active :: "relation list" and db :: database and uid :: "uuid option"
  assume "Room_members \<notin> set active"
  then have less: "remaining (Room_members # active) < remaining active"
    by (simp add: remaining_def all_relations_def)
  then show "(Inl (Room_members # active, db, uid), Inr (active, db, uid))
      \<in> measure (\<lambda>x. case x of Inl (active, db, uid) \<Rightarrow> remaining active
                               | Inr (active, db, uid) \<Rightarrow> remaining active)"
    by simp
  fix x2
  from less show "(Inr (Room_members # active, db, uid), Inr (active, db, uid))
      \<in> measure (\<lambda>x. case x of Inl (active, db, uid) \<Rightarrow> remaining active
                               | Inr (active, db, uid) \<Rightarrow> remaining active)"
    by simp
qed

declare visible_rooms.simps [simp del]
declare visible_room_members.simps [simp del]

text \<open>\<open>SELECT * FROM rooms\<close> by caller \<open>uid\<close>.\<close>

definition select_rooms :: "database \<Rightarrow> uuid option \<Rightarrow> sql_error + room list" where
  "select_rooms db uid = visible_rooms [] db uid"

text \<open>
  Policy ``Users can insert messages in their rooms'', \<open>FOR INSERT\<close> on \<open>messages\<close>: its
  \<open>WITH CHECK\<close> expression on the new row. The older insert policy is dropped first, so
  this is the only one. \<open>UNION\<close> removes duplicates.
\<close>

definition messages_insert_check ::
    "room list \<Rightarrow> room_member list \<Rightarrow> uuid option \<Rightarrow> message \<Rightarrow> sqlbool" where
  "messages_insert_check rs members uid new =
     sql_and (sql_eq uid (Some (m_user_id new)))
       (sql_in (m_room_id new) (remdups (public_room_ids rs @ own_room_ids members uid)))"

text \<open>
  \<open>INSERT INTO messages\<close> by caller \<open>uid\<close>. The policy's subqueries are expanded first,
  \<open>messages\<close> being on the list; the policy is checked on the new row before it is
  stored; then the primary key, then the two foreign keys.
\<close>

definition insert_message :: "database \<Rightarrow> uuid option \<Rightarrow> message \<Rightarrow> sql_error + database" where
  "insert_message db uid new =
     (case visible_rooms [Messages] db uid of
        Inl e \<Rightarrow> Inl e
      | Inr rs \<Rightarrow>
          (case visible_room_members [Messages] db uid of
             Inl e \<Rightarrow> Inl e
           | Inr members \<Rightarrow>
               if \<not> is_true (messages_insert_check rs members uid new)
               then Inl InsufficientPrivilege
               else if m_id new \<in> m_id ` set (messages db) then Inl UniqueViolation
               else if m_user_id new \<notin> auth_users db
                       \<or> (case m_room_id new of None \<Rightarrow> False
                           | Some rid \<Rightarrow> rid \<notin> r_id ` set (rooms db))
                    then Inl ForeignKeyViolation
               else Inr (db\<lparr>messages := messages db @ [new]\<rparr>)))"

subsection \<open>\<open>04_direct_messaging.sql\<close>: policies and trigger on direct messages\<close>

text \<open>\<open>SELECT conversation_id FROM public.direct_participants WHERE user_id = auth.uid()\<close>\<close>

definition own_conversation_ids ::
    "direct_participant list \<Rightarrow> uuid option \<Rightarrow> uuid option list" where
  "own_conversation_ids participants uid =
     [Some (dp_conversation_id p). p \<leftarrow> participants,
        is_true (sql_eq (Some (dp_user_id p)) uid)]"

text \<open>
  Policy ``Users can view participants in their conversations'', \<open>FOR SELECT\<close> on
  \<open>direct_participants\<close>, and the rows of that table a caller can see. The policy reads
  \<open>direct_participants\<close> itself.
\<close>

definition direct_participants_select_policy ::
    "direct_participant list \<Rightarrow> uuid option \<Rightarrow> direct_participant \<Rightarrow> sqlbool" where
  "direct_participants_select_policy participants uid p =
     sql_in (Some (dp_conversation_id p)) (own_conversation_ids participants uid)"

function visible_direct_participants ::
    "relation list \<Rightarrow> database \<Rightarrow> uuid option \<Rightarrow> sql_error + direct_participant list" where
  "visible_direct_participants active db uid =
     (if Direct_participants \<in> set active then Inl InfiniteRecursion
      else
        (case visible_direct_participants (Direct_participants # active) db uid of
           Inl e \<Rightarrow> Inl e
         | Inr participants \<Rightarrow>
             Inr [p \<leftarrow> direct_participants db.
                    is_true (direct_participants_select_policy participants uid p)]))"
  by pat_completeness auto
termination
proof (relation "measure (\<lambda>(active, db, uid). remaining active)")
  show "wf (measure (\<lambda>(active, db, uid). remaining active))" by simp
next
  fix active :: "relation list" and db :: database and uid :: "uuid option"
  assume "Direct_participants \<notin> set active"
  then have "remaining (Direct_participants # active) < remaining active"
    by (simp add: remaining_def all_relations_def)
  then show "((Direct_participants # active, db, uid), (active, db, uid))
      \<in> measure (\<lambda>(active, db, uid). remaining active)"
    by simp
qed

declare visible_direct_participants.simps [simp del]

text \<open>
  Policy ``Users can view messages in their conversations'', \<open>FOR SELECT\<close> on
  \<open>direct_messages\<close>, and \<open>SELECT * FROM direct_messages\<close> by caller \<open>uid\<close>.
\<close>

definition direct_messages_select_policy ::
    "direct_participant list \<Rightarrow> uuid option \<Rightarrow> direct_message \<Rightarrow> sqlbool" where
  "direct_messages_select_policy participants uid m =
     sql_in (Some (dm_conversation_id m)) (own_conversation_ids participants uid)"

definition select_direct_messages ::
    "database \<Rightarrow> uuid option \<Rightarrow> sql_error + direct_message list" where
  "select_direct_messages db uid =
     (case visible_direct_participants [Direct_messages] db uid of
        Inl e \<Rightarrow> Inl e
      | Inr participants \<Rightarrow>
          Inr [m \<leftarrow> direct_messages db.
                 is_true (direct_messages_select_policy participants uid m)])"

text \<open>
  Policy ``Users can send messages to their conversations'', \<open>FOR INSERT\<close> on
  \<open>direct_messages\<close>.
\<close>

definition direct_messages_insert_check ::
    "direct_participant list \<Rightarrow> uuid option \<Rightarrow> direct_message \<Rightarrow> sqlbool" where
  "direct_messages_insert_check participants uid new =
     sql_and (sql_eq (Some (dm_sender_id new)) uid)
       (sql_in (Some (dm_conversation_id new)) (own_conversation_ids participants uid))"

text \<open>
  The trigger function, run once for each inserted row \<open>new\<close>; \<open>now\<close> is \<open>NOW()\<close>.
  It is declared \<open>SECURITY DEFINER\<close>: it updates the table itself, whoever the caller
  is.
\<close>

definition update_conversation_timestamp ::
    "timestamptz \<Rightarrow> database \<Rightarrow> direct_message \<Rightarrow> database" where
  "update_conversation_timestamp now db new =
     db\<lparr>direct_conversations :=
          map (\<lambda>c. if dc_id c = dm_conversation_id new then c\<lparr>dc_updated_at := now\<rparr> else c)
            (direct_conversations db)\<rparr>"

text \<open>
  \<open>INSERT INTO direct_messages\<close> by caller \<open>uid\<close>: the policy's subquery is expanded,
  then come the policy, the primary key, the foreign keys, and the trigger
  \<open>on_message_sent\<close>, which fires after the row is stored.
\<close>

definition insert_direct_message ::
    "timestamptz \<Rightarrow> database \<Rightarrow> uuid option \<Rightarrow> direct_message \<Rightarrow> sql_error + database" where
  "insert_direct_message now db uid new =
     (case visible_direct_participants [Direct_messages] db uid of
        Inl e \<Rightarrow> Inl e
      | Inr participants \<Rightarrow>
          if \<not> is_true (direct_messages_insert_check participants uid new)
          then Inl InsufficientPrivilege
          else if dm_id new \<in> dm_id ` set (direct_messages db) then Inl UniqueViolation
          else if dm_conversation_id new \<notin> dc_id ` set (direct_conversations db)
                  \<or> dm_sender_id new \<notin> auth_users db
               then Inl ForeignKeyViolation
          else Inr (update_conversation_timestamp now
                      (db\<lparr>direct_messages := direct_messages db @ [new]\<rparr>) new))"

subsection \<open>\<open>04_direct_messaging.sql\<close>: \<open>find_or_create_conversation\<close>\<close>

text \<open>
  The function is declared \<open>SECURITY DEFINER\<close>: it reads and writes the tables
  themselves, not what the policies would show the caller.
  What it takes from the server besides its arguments: the row that the
  executor delivers first for a \<open>LIMIT 1\<close> without \<open>ORDER BY\<close>, the three values of
  \<open>gen_random_uuid()\<close> (the conversation's id and the two participant rows' ids) and
  \<open>now()\<close>.
\<close>

record server =
  first_row :: nat
  conversation_uuid :: uuid
  participant1_uuid :: uuid
  participant2_uuid :: uuid
  srv_now :: timestamptz

definition participant_count :: "database \<Rightarrow> uuid \<Rightarrow> nat" where
  "participant_count db c = length [p \<leftarrow> direct_participants db. dp_conversation_id p = c]"

text \<open>The rows of the \<open>SELECT\<close>, before \<open>LIMIT 1\<close>: one for each triple of the join.\<close>

definition existing_conversations :: "database \<Rightarrow> uuid \<Rightarrow> uuid \<Rightarrow> uuid list" where
  "existing_conversations db user1_id user2_id =
     [dc_id c.
        c \<leftarrow> direct_conversations db,
        p1 \<leftarrow> direct_participants db,
        dc_id c = dp_conversation_id p1 \<and> dp_user_id p1 = user1_id,
        p2 \<leftarrow> direct_participants db,
        dc_id c = dp_conversation_id p2 \<and> dp_user_id p2 = user2_id,
        participant_count db (dc_id c) = 2]"

text \<open>
  \<open>LIMIT 1\<close>: no row when there is none, else one of them; which one is the executor's
  choice.
\<close>

definition limit_1 :: "nat \<Rightarrow> 'a list \<Rightarrow> 'a option" where
  "limit_1 k rows = (if rows = [] then None else Some (rows ! (k mod length rows)))"

text \<open>\<open>SELECT c.id INTO existing_conversation_id ... LIMIT 1\<close>; \<open>None\<close> is \<open>NULL\<close>.\<close>

definition select_existing_conversation ::
    "server \<Rightarrow> database \<Rightarrow> uuid \<Rightarrow> uuid \<Rightarrow> uuid option" where
  "select_existing_conversation srv db user1_id user2_id =
     limit_1 (first_row srv) (existing_conversations db user1_id user2_id)"

text \<open>
  One row into \<open>direct_participants\<close>: the primary key and \<open>UNIQUE(conversation_id,
  user_id)\<close> are checked as the row is stored.
\<close>

definition insert_participant ::
    "database \<Rightarrow> direct_participant \<Rightarrow> sql_error + database" where
  "insert_participant db p =
     (if dp_id p \<in> dp_id ` set (direct_participants db)
         \<or> (dp_conversation_id p, dp_user_id p)
             \<in> (\<lambda>q. (dp_conversation_id q, dp_user_id q)) ` set (direct_participants db)
      then Inl UniqueViolation
      else Inr (db\<lparr>direct_participants := direct_participants db @ [p]\<rparr>))"

text \<open>The foreign keys of a participant row; they are checked when the statement ends.\<close>

definition participant_references_ok :: "database \<Rightarrow> direct_participant \<Rightarrow> bool" where
  "participant_references_ok db p \<longleftrightarrow>
     dp_conversation_id p \<in> dc_id ` set (direct_conversations db)
     \<and> dp_user_id p \<in> auth_users db"

text \<open>The two \<open>INSERT\<close> statements of the function.\<close>

definition insert_new_conversation ::
    "server \<Rightarrow> database \<Rightarrow> uuid \<Rightarrow> uuid \<Rightarrow> sql_error + (uuid \<times> database)" where
  "insert_new_conversation srv db user1_id user2_id =
     (let new_conversation_id = conversation_uuid srv in
      if new_conversation_id \<in> dc_id ` set (direct_conversations db) then Inl UniqueViolation
      else
        let db1 = db\<lparr>direct_conversations := direct_conversations db
                      @ [\<lparr>dc_id = new_conversation_id, dc_created_at = srv_now srv,
                           dc_updated_at = srv_now srv\<rparr>]\<rparr>;
            row1 = \<lparr>dp_id = participant1_uuid srv, dp_conversation_id = new_conversation_id,
                     dp_user_id = user1_id, dp_joined_at = srv_now srv\<rparr>;
            row2 = \<lparr>dp_id = participant2_uuid srv, dp_conversation_id = new_conversation_id,
                     dp_user_id = user2_id, dp_joined_at = srv_now srv\<rparr>
        in case insert_participant db1 row1 of
             Inl e \<Rightarrow> Inl e
           | Inr db2 \<Rightarrow>
               (case insert_participant db2 row2 of
                  Inl e \<Rightarrow> Inl e
                | Inr db3 \<Rightarrow>
                    if participant_references_ok db3 row1 \<and> participant_references_ok db3 row2
                    then Inr (new_conversation_id, db3)
                    else Inl ForeignKeyViolation))"

definition find_or_create_conversation ::
    "server \<Rightarrow> database \<Rightarrow> uuid \<Rightarrow> uuid \<Rightarrow> sql_error + (uuid \<times> database)" where
  "find_or_create_conversation srv db user1_id user2_id =
     (case select_existing_conversation srv db user1_id user2_id of
        Some existing_conversation_id \<Rightarrow> Inr (existing_conversation_id, db)
      | None \<Rightarrow> insert_new_conversation srv db user1_id user2_id)"

text \<open>
  A call from a client (\<open>supabase.rpc\<close>): the result or the error, and the database
  afterwards. A call that raises leaves nothing behind.
\<close>

definition rpc_find_or_create_conversation ::
    "server \<Rightarrow> database \<Rightarrow> uuid \<Rightarrow> uuid \<Rightarrow> (sql_error + uuid) \<times> database" where
  "rpc_find_or_create_conversation srv db user1_id user2_id =
     (case find_or_create_conversation srv db user1_id user2_id of
        Inl e \<Rightarrow> (Inl e, db)
      | Inr (c, db') \<Rightarrow> (Inr c, db'))"

subsection \<open>Words of the claims about \<open>find_or_create_conversation\<close>\<close>

text \<open>The participant rows of conversation \<open>c\<close>.\<close>

definition participants_of :: "database \<Rightarrow> uuid \<Rightarrow> direct_participant list" where
  "participants_of db c = [p \<leftarrow> direct_participants db. dp_conversation_id p = c]"

text \<open>
  ``A conversation whose participant set is exactly \<open>{u1, u2}\<close> (exactly two
  participant rows)''.
\<close>

definition conversation_of_exactly :: "database \<Rightarrow> uuid \<Rightarrow> uuid \<Rightarrow> uuid \<Rightarrow> bool" where
  "conversation_of_exactly db c u1 u2 \<longleftrightarrow>
     c \<in> dc_id ` set (direct_conversations db)
     \<and> length (participants_of db c) = 2
     \<and> dp_user_id ` set (participants_of db c) = {u1, u2}"

text \<open>
  The foreign key of \<open>direct_participants.conversation_id\<close>, as a property of a state.
\<close>

definition participants_reference_conversations :: "database \<Rightarrow> bool" where
  "participants_reference_conversations db \<longleftrightarrow>
     (\<forall>p \<in> set (direct_participants db).
        dp_conversation_id p \<in> dc_id ` set (direct_conversations db))"

text \<open>Calls one after the other, each on the database the one before left.\<close>

fun rpc_sequence ::
    "database \<Rightarrow> (server \<times> uuid \<times> uuid) list \<Rightarrow> (sql_error + uuid) list \<times> database" where
  "rpc_sequence db [] = ([], db)"
| "rpc_sequence db ((srv, user1_id, user2_id) # calls) =
     (case rpc_find_or_create_conversation srv db user1_id user2_id of
        (r, db') \<Rightarrow> (case rpc_sequence db' calls of (rs, db'') \<Rightarrow> (r # rs, db'')))"

text \<open>At most one conversation has exactly the participants \<open>u1\<close> and \<open>u2\<close>.\<close>

definition at_most_one_conversation :: "database \<Rightarrow> uuid \<Rightarrow> uuid \<Rightarrow> bool" where
  "at_most_one_conversation db u1 u2 \<longleftrightarrow>
     (\<forall>c c'. conversation_of_exactly db c u1 u2 \<and> conversation_of_exactly db c' u1 u2
        \<longrightarrow> c = c')"

subsection \<open>Words of the claims about the policies\<close>

text \<open>
  The new message is the caller's own, and its \<open>room_id\<close> refers to a room that is
  public or of which the caller is a member.
\<close>

definition may_post_in :: "database \<Rightarrow> uuid \<Rightarrow> message \<Rightarrow> bool" where
  "may_post_in db u new \<longleftrightarrow>
     m_user_id new = u
     \<and> (\<exists>rid. m_room_id new = Some rid
          \<and> ((\<exists>r \<in> set (rooms db). r_id r = rid \<and> r_is_private r = Some False)
             \<or> (\<exists>rm \<in> set (room_members db). rm_room_id rm = rid \<and> rm_user_id rm = u)))"

text \<open>User \<open>u\<close> has a participant row for conversation \<open>c\<close>.\<close>

definition participates :: "database \<Rightarrow> uuid \<Rightarrow> uuid \<Rightarrow> bool" where
  "participates db u c \<longleftrightarrow>
     (\<exists>p \<in> set (direct_participants db). dp_conversation_id p = c \<and> dp_user_id p = u)"

subsection \<open>Calls that overlap\<close>

text \<open>
  The function body is two steps: the \<open>SELECT\<close>, and then, when it found nothing, the
  \<open>INSERT\<close>s. Under the default isolation level a statement sees what was committed
  before it began. So a call that is in flight has either not started, or has the result
  of its \<open>SELECT\<close> in hand, or has returned; and the rows it inserts appear to other
  calls when it returns.
\<close>

datatype call_state =
    Called server uuid uuid
  | Selected server uuid uuid "uuid option"
  | Returned "sql_error + uuid"

fun call_step :: "database \<Rightarrow> call_state \<Rightarrow> database \<times> call_state" where
  "call_step db (Called srv user1_id user2_id) =
     (db, Selected srv user1_id user2_id
            (select_existing_conversation srv db user1_id user2_id))"
| "call_step db (Selected srv user1_id user2_id (Some existing_conversation_id)) =
     (db, Returned (Inr existing_conversation_id))"
| "call_step db (Selected srv user1_id user2_id None) =
     (case insert_new_conversation srv db user1_id user2_id of
        Inl e \<Rightarrow> (db, Returned (Inl e))
      | Inr (c, db') \<Rightarrow> (db', Returned (Inr c)))"
| "call_step db (Returned r) = (db, Returned r)"

text \<open>
  A schedule names, step by step, the call that moves next.
\<close>

fun run_schedule ::
    "database \<Rightarrow> call_state list \<Rightarrow> nat list \<Rightarrow> database \<times> call_state list" where
  "run_schedule db calls [] = (db, calls)"
| "run_schedule db calls (i # schedule) =
     (if i < length calls then
        (case call_step db (calls ! i) of
           (db', s) \<Rightarrow> run_schedule db' (calls[i := s]) schedule)
      else run_schedule db calls schedule)"

text \<open>A call that has not started.\<close>

definition start_call :: "server \<times> uuid \<times> uuid \<Rightarrow> call_state" where
  "start_call call = (case call of (srv, user1_id, user2_id) \<Rightarrow> Called srv user1_id user2_id)"

text \<open>
  The schedule without overlap for \<open>n\<close> calls, numbered from \<open>first\<close>: each call takes
  both its steps before the next call starts.
\<close>

definition one_after_the_other :: "nat \<Rightarrow> nat \<Rightarrow> nat list" where
  "one_after_the_other first n = concat (map (\<lambda>i. [i, i]) [first..<first + n])"

text \<open>
  A call is starting while its \<open>SELECT\<close> is still to run. It is inserting once its
  \<open>SELECT\<close> has found nothing and its \<open>INSERT\<close>s are still to run.
\<close>

fun starting :: "call_state \<Rightarrow> bool" where
  "starting (Called srv user1_id user2_id) = True"
| "starting s = False"

fun inserting :: "call_state \<Rightarrow> bool" where
  "inserting (Selected srv user1_id user2_id None) = True"
| "inserting s = False"

text \<open>
  In a schedule whose selects wait for the inserts, no call runs its \<open>SELECT\<close> while
  another call is inserting. Calls may overlap otherwise: any number of them may have
  started, and any number of them may hold a conversation that their \<open>SELECT\<close> found.
\<close>

fun selects_wait_for_inserts :: "database \<Rightarrow> call_state list \<Rightarrow> nat list \<Rightarrow> bool" where
  "selects_wait_for_inserts db calls [] = True"
| "selects_wait_for_inserts db calls (i # schedule) =
     (if i < length calls then
        \<not> (starting (calls ! i) \<and> list_ex inserting calls)
        \<and> (case call_step db (calls ! i) of
             (db', s) \<Rightarrow> selects_wait_for_inserts db' (calls[i := s]) schedule)
      else selects_wait_for_inserts db calls schedule)"

text \<open>
  A call in flight is for the pair \<open>u1\<close>, \<open>u2\<close> when these are its arguments, in
  either order.
\<close>

fun for_pair :: "uuid \<Rightarrow> uuid \<Rightarrow> call_state \<Rightarrow> bool" where
  "for_pair u1 u2 (Called srv a b) \<longleftrightarrow> (a, b) = (u1, u2) \<or> (a, b) = (u2, u1)"
| "for_pair u1 u2 (Selected srv a b r) \<longleftrightarrow> (a, b) = (u1, u2) \<or> (a, b) = (u2, u1)"
| "for_pair u1 u2 (Returned r) \<longleftrightarrow> True"


subsection \<open>States used as examples\<close>

definition no_conversation_db :: database where
  "no_conversation_db =
     \<lparr>auth_users = {1, 2, 3}, rooms = [], room_members = [], messages = [],
      direct_conversations = [], direct_participants = [], direct_messages = []\<rparr>"

definition server_a :: server where
  "server_a = \<lparr>first_row = 0, conversation_uuid = 10, participant1_uuid = 11,
               participant2_uuid = 12, srv_now = 100\<rparr>"

definition server_b :: server where
  "server_b = \<lparr>first_row = 1, conversation_uuid = 20, participant1_uuid = 21,
               participant2_uuid = 22, srv_now = 200\<rparr>"

text \<open>Users 1 and 2 share conversation 10.\<close>

definition one_conversation_db :: database where
  "one_conversation_db =
     no_conversation_db
       \<lparr>direct_conversations := [\<lparr>dc_id = 10, dc_created_at = 100, dc_updated_at = 100\<rparr>],
        direct_participants :=
          [\<lparr>dp_id = 11, dp_conversation_id = 10, dp_user_id = 1, dp_joined_at = 100\<rparr>,
           \<lparr>dp_id = 12, dp_conversation_id = 10, dp_user_id = 2, dp_joined_at = 100\<rparr>]\<rparr>"

text \<open>Users 1 and 2 share conversation 10 and conversation 20.\<close>

definition two_conversations_db :: database where
  "two_conversations_db =
     no_conversation_db
       \<lparr>direct_conversations :=
          [\<lparr>dc_id = 10, dc_created_at = 100, dc_updated_at = 100\<rparr>,
           \<lparr>dc_id = 20, dc_created_at = 200, dc_updated_at = 200\<rparr>],
        direct_participants :=
          [\<lparr>dp_id = 11, dp_conversation_id = 10, dp_user_id = 1, dp_joined_at = 100\<rparr>,
           \<lparr>dp_id = 12, dp_conversation_id = 10, dp_user_id = 2, dp_joined_at = 100\<rparr>,
           \<lparr>dp_id = 21, dp_conversation_id = 20, dp_user_id = 1, dp_joined_at = 200\<rparr>,
           \<lparr>dp_id = 22, dp_conversation_id = 20, dp_user_id = 2, dp_joined_at = 200\<rparr>]\<rparr>"

text \<open>A public room, a private room whose only member is user 2, and two conversations.\<close>

definition general_room :: room where
  "general_room = \<lparr>r_id = 30, r_name = ''General'', r_description = Some ''General chat room'',
                   r_created_by = 1, r_is_private = Some False, r_created_at = 0\<rparr>"

definition private_room :: room where
  "private_room = \<lparr>r_id = 31, r_name = ''Private'', r_description = None,
                   r_created_by = 1, r_is_private = Some True, r_created_at = 0\<rparr>"

definition message_50 :: direct_message where
  "message_50 = \<lparr>dm_id = 50, dm_conversation_id = 10, dm_sender_id = 1, dm_content = ''hi'',
                 dm_created_at = 100\<rparr>"

definition message_51 :: direct_message where
  "message_51 = \<lparr>dm_id = 51, dm_conversation_id = 20, dm_sender_id = 3, dm_content = ''psst'',
                 dm_created_at = 200\<rparr>"

definition message_52 :: direct_message where
  "message_52 = \<lparr>dm_id = 52, dm_conversation_id = 10, dm_sender_id = 1, dm_content = ''again'',
                 dm_created_at = 300\<rparr>"

definition chat_db :: database where
  "chat_db =
     \<lparr>auth_users = {1, 2, 3},
      rooms = [general_room, private_room],
      room_members = [\<lparr>rm_id = 40, rm_room_id = 31, rm_user_id = 2, rm_joined_at = 0\<rparr>],
      messages = [],
      direct_conversations =
        [\<lparr>dc_id = 10, dc_created_at = 100, dc_updated_at = 100\<rparr>,
         \<lparr>dc_id = 20, dc_created_at = 200, dc_updated_at = 200\<rparr>],
      direct_participants =
        [\<lparr>dp_id = 11, dp_conversation_id = 10, dp_user_id = 1, dp_joined_at = 100\<rparr>,
         \<lparr>dp_id = 12, dp_conversation_id = 10, dp_user_id = 2, dp_joined_at = 100\<rparr>,
         \<lparr>dp_id = 21, dp_conversation_id = 20, dp_user_id = 2, dp_joined_at = 200\<rparr>,
         \<lparr>dp_id = 22, dp_conversation_id = 20, dp_user_id = 3, dp_joined_at = 200\<rparr>],
      direct_messages = [message_50, message_51]\<rparr>"

definition post_in :: "uuid \<Rightarrow> uuid \<Rightarrow> message" where
  "post_in u rid = \<lparr>m_id = 60, m_content = ''hello'', m_user_id = u,
                    m_user_email = ''u@example.com'', m_created_at = 400,
                    m_room_id = Some rid\<rparr>"

text \<open>
  For the client: stand-ins for the library's two formats, a clock, a room, a row that
  passes the schema and one that does not.
\<close>

definition uuid_shape :: "string \<Rightarrow> bool" where
  "uuid_shape s \<longleftrightarrow> length s = 36"

definition email_shape :: "string \<Rightarrow> bool" where
  "email_shape s \<longleftrightarrow> CHR ''@'' \<in> set s"

definition example_zod :: zod where
  "example_zod = \<lparr>uuid_format = uuid_shape, email_format = email_shape\<rparr>"

definition example_clock :: "nat \<Rightarrow> string" where
  "example_clock i = ''2023-10-15T12:00:00.000Z''"

definition example_room :: jsval where
  "example_room = JObj [(''id'', JStr ''00000000-0000-4000-8000-00000000000a''),
                        (''name'', JStr ''General'')]"

definition well_formed_row :: jsval where
  "well_formed_row =
     JObj [(''id'', JStr ''00000000-0000-4000-8000-000000000001''),
           (''content'', JStr ''hello''),
           (''created_at'', JStr ''2023-10-15T11:00:00.000Z''),
           (''user_id'', JStr ''00000000-0000-4000-8000-000000000002''),
           (''user_email'', JStr ''a@example.com''),
           (''is_read'', JBool False)]"

definition falsy_fields_row :: jsval where
  "falsy_fields_row =
     JObj [(''id'', JStr ''a''), (''content'', JNum 0), (''created_at'', JStr []),
           (''user_id'', JStr ''b'')]"

definition empty_interface :: chat_interface where
  "empty_interface = \<lparr>ci_messages = [], ci_loading = True, ci_error = None\<rparr>"

section \<open>Properties of the error handler\<close>

lemma handleDatabaseError_nonempty:
  assumes "\<not> (\<not> has_property ''code'' e \<and> get_prop e ''message'' = JStr [])"
  shows "handleDatabaseError d e \<noteq> []"
  using assms unfolding handleDatabaseError_def unknown_error_message_def Let_def
  by (cases e) (auto split: if_splits elim: typeof_string.elims)

lemma handleDatabaseError_non_object:
  assumes "\<not> (typeof_object e \<and> e \<noteq> JNull)"
  shows "handleDatabaseError d e = unknown_error_message"
proof -
  from assms have "(typeof_object e \<and> e \<noteq> JNull) = False" by simp
  then show ?thesis unfolding handleDatabaseError_def by (simp only: if_False)
qed

lemma help_texts_differ:
  "table_setup_help \<noteq> []" "recursion_help \<noteq> table_setup_help"
  by (simp_all add: table_setup_help_def recursion_help_def)

lemma createErrorWithHelp_appends_iff:
  "createErrorWithHelp d e = handleDatabaseError d e @ table_setup_help
     \<longleftrightarrow> isTableNotFoundError e"
  using help_texts_differ by (auto simp: createErrorWithHelp_def Let_def)

lemma isTableNotFoundError_iff:
  "isTableNotFoundError e \<longleftrightarrow>
     typeof_object e \<and> e \<noteq> JNull \<and>
     (if has_property ''code'' e then get_prop e ''code'' = JStr ''42P01''
      else typeof_string (get_prop e ''message'')
           \<and> str_includes (str_of (get_prop e ''message'')) ''relation''
           \<and> str_includes (str_of (get_prop e ''message'')) ''does not exist'')"
proof (cases e)
  case (JObj kvs)
  show ?thesis
  proof (cases "map_of kvs ''message''")
    case None
    with JObj show ?thesis by (simp add: isTableNotFoundError_def)
  next
    case (Some v)
    with JObj show ?thesis by (simp add: isTableNotFoundError_def)
  qed
qed (simp_all add: isTableNotFoundError_def)

text \<open>
  C10, as the code has it. \<open>handleDatabaseError\<close> returns the unknown-error message
  for \<open>null\<close>, \<open>undefined\<close> and every value that is not an object, and a non-empty
  string for every input other than an object without a \<open>code\<close> property whose
  \<open>message\<close> is the empty string. \<open>createErrorWithHelp\<close> appends the three-step
  setup instructions to that result exactly when \<open>isTableNotFoundError\<close> holds, and
  that is: the input is an object whose \<open>code\<close> property, when it has one, is
  \<open>'42P01'\<close>, and whose message, when it has no \<open>code\<close> property, is a string
  containing both \<open>relation\<close> and \<open>does not exist\<close>.
\<close>

theorem C10_error_help:
  "(\<not> (typeof_object e \<and> e \<noteq> JNull) \<longrightarrow> handleDatabaseError d e = unknown_error_message)
   \<and> (\<not> (\<not> has_property ''code'' e \<and> get_prop e ''message'' = JStr [])
        \<longrightarrow> handleDatabaseError d e \<noteq> [])
   \<and> (createErrorWithHelp d e = handleDatabaseError d e @ table_setup_help
        \<longleftrightarrow> isTableNotFoundError e)
   \<and> (isTableNotFoundError e \<longleftrightarrow>
        typeof_object e \<and> e \<noteq> JNull \<and>
        (if has_property ''code'' e then get_prop e ''code'' = JStr ''42P01''
         else typeof_string (get_prop e ''message'')
              \<and> str_includes (str_of (get_prop e ''message'')) ''relation''
              \<and> str_includes (str_of (get_prop e ''message'')) ''does not exist''))"
  using handleDatabaseError_nonempty [of e d] handleDatabaseError_non_object [of e d]
    createErrorWithHelp_appends_iff [of d e] isTableNotFoundError_iff [of e]
  by blast

text \<open>
  C10 at an error object without a code whose message names a missing relation: the
  result is not empty, and the instructions are appended.
\<close>

theorem C10_error_help_witness:
  "handleDatabaseError [] (JObj [(''message'', JStr ''relation x does not exist'')]) \<noteq> []
   \<and> isTableNotFoundError (JObj [(''message'', JStr ''relation x does not exist'')])
   \<and> createErrorWithHelp [] (JObj [(''message'', JStr ''relation x does not exist'')])
       = handleDatabaseError [] (JObj [(''message'', JStr ''relation x does not exist'')])
         @ table_setup_help"
  using C10_error_help [of "JObj [(''message'', JStr ''relation x does not exist'')]" "[]"]
  by simp

text \<open>
  C10 as stated fails twice. An error object without a code and with an empty message
  gets the empty string back. An error object with another code whose message contains
  both \<open>relation\<close> and \<open>does not exist\<close> is not a table-not-found error, and gets no
  setup instructions.
\<close>

theorem C10_counterexample:
  "handleDatabaseError [] (JObj [(''message'', JStr [])]) = []
   \<and> str_includes ''relation x does not exist'' ''relation''
   \<and> str_includes ''relation x does not exist'' ''does not exist''
   \<and> \<not> isTableNotFoundError
         (JObj [(''code'', JStr ''XX000''), (''message'', JStr ''relation x does not exist'')])
   \<and> createErrorWithHelp []
         (JObj [(''code'', JStr ''XX000''), (''message'', JStr ''relation x does not exist'')])
       = ''Database error: relation x does not exist''"
  by (simp add: handleDatabaseError_def isTableNotFoundError_def isRecursionError_def
      createErrorWithHelp_def)

section \<open>Properties of the validation of fetched messages\<close>

lemmas client_examples = uuid_shape_def email_shape_def example_zod_def example_clock_def
  example_room_def well_formed_row_def falsy_fields_row_def empty_interface_def

lemmas validation_defs = MessageSchema_parse_def z_string_def z_string_uuid_def
  z_string_email_def z_optional_def optional_key_def

lemma js_or_if: "js_or a b = (if truthy a then a else b)"
  by (simp add: js_or_def)

lemma validate_message_parsed:
  "MessageSchema_parse z message = Some parsed
     \<Longrightarrow> validate_message z t room message = Inr parsed"
  by (simp add: validate_message_def)

lemma validate_message_defaults:
  assumes "MessageSchema_parse z message = None" "is_row message"
  shows "validate_message z t room message =
           Inr (JObj
                    [(''id'', js_or (get_prop message ''id'') (JStr [])),
                     (''content'', js_or (get_prop message ''content'') (JStr [])),
                     (''created_at'', js_or (get_prop message ''created_at'') (JStr t)),
                     (''user_id'', js_or (get_prop message ''user_id'') (JStr [])),
                     (''user_email'',
                        js_or (get_prop message ''user_email'') (JStr ''unknown@example.com'')),
                     (''room_id'', js_or (get_prop message ''room_id'') (get_prop room ''id''))])"
proof -
  from assms(2) have "(message = JNull \<or> message = JUndefined) = False"
    by (simp add: is_row_def)
  then show ?thesis
    unfolding validate_message_def message_defaults_def assms(1) by (simp only: option.case if_False)
qed

lemma validate_message_total:
  assumes "is_row message"
  shows "\<exists>v. validate_message z t room message = Inr v"
proof (cases "MessageSchema_parse z message")
  case None
  from validate_message_defaults [OF None assms] show ?thesis by blast
next
  case (Some parsed)
  from validate_message_parsed [OF Some] show ?thesis by blast
qed

lemma validatedMessages_rows:
  assumes "\<forall>message \<in> set data. is_row message"
  shows "\<exists>validated. validatedMessages z clock room i data = Inr validated
           \<and> length validated = length data
           \<and> (\<forall>k < length data.
                 validate_message z (clock (i + k)) room (data ! k) = Inr (validated ! k))"
  using assms
proof (induction data arbitrary: i)
  case Nil
  show ?case by simp
next
  case (Cons message data)
  from Cons.prems have row: "is_row message" and rest: "\<forall>message \<in> set data. is_row message"
    by simp_all
  from validate_message_total [OF row]
  obtain v where v: "validate_message z (clock i) room message = Inr v" by blast
  from Cons.IH [OF rest, of "Suc i"] obtain vs where
    vs: "validatedMessages z clock room (Suc i) data = Inr vs"
    and len: "length vs = length data"
    and each: "\<forall>k < length data.
                 validate_message z (clock (Suc i + k)) room (data ! k) = Inr (vs ! k)"
    by blast
  have run: "validatedMessages z clock room i (message # data) = Inr (v # vs)"
    using v vs by simp
  have "validate_message z (clock (i + k)) room ((message # data) ! k) = Inr ((v # vs) ! k)"
    if "k < length (message # data)" for k
  proof (cases k)
    case 0
    with v show ?thesis by simp
  next
    case (Suc j)
    with that have "j < length data" by simp
    with each have "validate_message z (clock (Suc i + j)) room (data ! j) = Inr (vs ! j)"
      by blast
    with Suc show ?thesis by simp
  qed
  with run len show ?case by simp
qed

lemma validatedMessages_null_row:
  "validatedMessages z clock room i [JNull] = Inl TypeError"
  by (simp add: validate_message_def MessageSchema_parse_def message_defaults_def)

text \<open>
  C7, as the code has it. For every list of fetched rows, none of them \<open>null\<close> or
  \<open>undefined\<close>, the validation returns a list of the same length in the same order.
  Each element is the \<open>MessageSchema\<close> parse of its row when that parse succeeds.
  Otherwise it is an object of the six message fields, each holding the row's value
  when that value is truthy and its default when the value is absent or falsy
  (\<open>undefined\<close>, \<open>null\<close>, the empty string, \<open>0\<close>, \<open>false\<close>): the empty string for
  \<open>id\<close>, \<open>content\<close> and \<open>user_id\<close>, the current time for \<open>created_at\<close>,
  \<open>unknown@example.com\<close> for \<open>user_email\<close>, the current room's id for \<open>room_id\<close>.
  With a current room and no query error, \<open>fetchMessages\<close> stores that list and sets no
  error.
\<close>

theorem C7_validated_messages:
  assumes "\<forall>message \<in> set data. is_row message"
  shows "\<exists>validated.
           validatedMessages z clock currentRoom 0 data = Inr validated
           \<and> length validated = length data
           \<and> (\<forall>k < length data.
                 validated ! k =
                   (case MessageSchema_parse z (data ! k) of
                      Some parsed \<Rightarrow> parsed
                    | None \<Rightarrow> JObj
                        [(''id'', if truthy (get_prop (data ! k) ''id'')
                                  then get_prop (data ! k) ''id'' else JStr []),
                         (''content'', if truthy (get_prop (data ! k) ''content'')
                                  then get_prop (data ! k) ''content'' else JStr []),
                         (''created_at'', if truthy (get_prop (data ! k) ''created_at'')
                                  then get_prop (data ! k) ''created_at'' else JStr (clock k)),
                         (''user_id'', if truthy (get_prop (data ! k) ''user_id'')
                                  then get_prop (data ! k) ''user_id'' else JStr []),
                         (''user_email'', if truthy (get_prop (data ! k) ''user_email'')
                                  then get_prop (data ! k) ''user_email''
                                  else JStr ''unknown@example.com''),
                         (''room_id'', if truthy (get_prop (data ! k) ''room_id'')
                                  then get_prop (data ! k) ''room_id''
                                  else get_prop currentRoom ''id'')]))
           \<and> (truthy currentRoom \<and> \<not> truthy error \<longrightarrow>
                fetchMessages z details_text clock currentRoom (JArr data) error st
                  = st\<lparr>ci_messages := validated, ci_loading := False, ci_error := None\<rparr>)"
proof -
  from validatedMessages_rows [OF assms, of z clock currentRoom 0]
  obtain validated where run: "validatedMessages z clock currentRoom 0 data = Inr validated"
    and len: "length validated = length data"
    and each: "\<forall>k < length data.
                 validate_message z (clock (0 + k)) currentRoom (data ! k) = Inr (validated ! k)"
    by blast
  have rows: "validated ! k =
                   (case MessageSchema_parse z (data ! k) of
                      Some parsed \<Rightarrow> parsed
                    | None \<Rightarrow> JObj
                        [(''id'', if truthy (get_prop (data ! k) ''id'')
                                  then get_prop (data ! k) ''id'' else JStr []),
                         (''content'', if truthy (get_prop (data ! k) ''content'')
                                  then get_prop (data ! k) ''content'' else JStr []),
                         (''created_at'', if truthy (get_prop (data ! k) ''created_at'')
                                  then get_prop (data ! k) ''created_at'' else JStr (clock k)),
                         (''user_id'', if truthy (get_prop (data ! k) ''user_id'')
                                  then get_prop (data ! k) ''user_id'' else JStr []),
                         (''user_email'', if truthy (get_prop (data ! k) ''user_email'')
                                  then get_prop (data ! k) ''user_email''
                                  else JStr ''unknown@example.com''),
                         (''room_id'', if truthy (get_prop (data ! k) ''room_id'')
                                  then get_prop (data ! k) ''room_id''
                                  else get_prop currentRoom ''id'')])"
    if k: "k < length data" for k
  proof (cases "MessageSchema_parse z (data ! k)")
    case None
    from k assms have "is_row (data ! k)" by simp
    from validate_message_defaults [OF None this, of "clock k" currentRoom] each k
    have "validated ! k = JObj
        [(''id'', js_or (get_prop (data ! k) ''id'') (JStr [])),
         (''content'', js_or (get_prop (data ! k) ''content'') (JStr [])),
         (''created_at'', js_or (get_prop (data ! k) ''created_at'') (JStr (clock k))),
         (''user_id'', js_or (get_prop (data ! k) ''user_id'') (JStr [])),
         (''user_email'',
            js_or (get_prop (data ! k) ''user_email'') (JStr ''unknown@example.com'')),
         (''room_id'', js_or (get_prop (data ! k) ''room_id'') (get_prop currentRoom ''id''))]"
      by simp
    then show ?thesis unfolding None js_or_if by (simp only: option.case)
  next
    case (Some parsed)
    from validate_message_parsed [OF Some, of "clock k" currentRoom] each k
    have "validated ! k = parsed" by simp
    then show ?thesis unfolding Some by (simp only: option.case)
  qed
  have fetch: "fetchMessages z details_text clock currentRoom (JArr data) error st
                  = st\<lparr>ci_messages := validated, ci_loading := False, ci_error := None\<rparr>"
    if "truthy currentRoom \<and> \<not> truthy error"
    using that run by (simp add: fetchMessages_def)
  from run len rows fetch show ?thesis by blast
qed

text \<open>
  C7 at two rows: the first passes the schema and comes back without the column the
  schema does not know; the second does not pass and comes back with defaults.
\<close>

theorem C7_validated_messages_witness:
  "is_row well_formed_row \<and> is_row falsy_fields_row
   \<and> validatedMessages example_zod example_clock example_room 0
         [well_formed_row, falsy_fields_row]
       = Inr [JObj [(''id'', JStr ''00000000-0000-4000-8000-000000000001''),
                    (''content'', JStr ''hello''),
                    (''created_at'', JStr ''2023-10-15T11:00:00.000Z''),
                    (''user_id'', JStr ''00000000-0000-4000-8000-000000000002''),
                    (''user_email'', JStr ''a@example.com'')],
              JObj [(''id'', JStr ''a''),
                    (''content'', JStr []),
                    (''created_at'', JStr ''2023-10-15T12:00:00.000Z''),
                    (''user_id'', JStr ''b''),
                    (''user_email'', JStr ''unknown@example.com''),
                    (''room_id'', JStr ''00000000-0000-4000-8000-00000000000a'')]]"
proof -
  have rows: "is_row well_formed_row" "is_row falsy_fields_row"
    by (simp_all add: is_row_def client_examples)
  then have all: "\<forall>message \<in> set [well_formed_row, falsy_fields_row]. is_row message"
    by simp
  from C7_validated_messages [OF all, where z = example_zod and clock = example_clock
      and currentRoom = example_room and error = JNull and details_text = "[]"
      and st = empty_interface]
  obtain validated where
    run: "validatedMessages example_zod example_clock example_room 0
            [well_formed_row, falsy_fields_row] = Inr validated"
    and len: "length validated = length [well_formed_row, falsy_fields_row]"
    and each: "\<forall>k < length [well_formed_row, falsy_fields_row].
       validated ! k =
         (case MessageSchema_parse example_zod ([well_formed_row, falsy_fields_row] ! k) of
            Some parsed \<Rightarrow> parsed
          | None \<Rightarrow> JObj
              [(''id'', if truthy (get_prop ([well_formed_row, falsy_fields_row] ! k) ''id'')
                  then get_prop ([well_formed_row, falsy_fields_row] ! k) ''id'' else JStr []),
               (''content'',
                  if truthy (get_prop ([well_formed_row, falsy_fields_row] ! k) ''content'')
                  then get_prop ([well_formed_row, falsy_fields_row] ! k) ''content''
                  else JStr []),
               (''created_at'',
                  if truthy (get_prop ([well_formed_row, falsy_fields_row] ! k) ''created_at'')
                  then get_prop ([well_formed_row, falsy_fields_row] ! k) ''created_at''
                  else JStr (example_clock k)),
               (''user_id'',
                  if truthy (get_prop ([well_formed_row, falsy_fields_row] ! k) ''user_id'')
                  then get_prop ([well_formed_row, falsy_fields_row] ! k) ''user_id''
                  else JStr []),
               (''user_email'',
                  if truthy (get_prop ([well_formed_row, falsy_fields_row] ! k) ''user_email'')
                  then get_prop ([well_formed_row, falsy_fields_row] ! k) ''user_email''
                  else JStr ''unknown@example.com''),
               (''room_id'',
                  if truthy (get_prop ([well_formed_row, falsy_fields_row] ! k) ''room_id'')
                  then get_prop ([well_formed_row, falsy_fields_row] ! k) ''room_id''
                  else get_prop example_room ''id'')])"
    by blast
  from each have "validated ! 0 =
      JObj [(''id'', JStr ''00000000-0000-4000-8000-000000000001''),
            (''content'', JStr ''hello''),
            (''created_at'', JStr ''2023-10-15T11:00:00.000Z''),
            (''user_id'', JStr ''00000000-0000-4000-8000-000000000002''),
            (''user_email'', JStr ''a@example.com'')]"
    by (simp add: validation_defs client_examples)
  moreover from each have "validated ! 1 =
      JObj [(''id'', JStr ''a''),
            (''content'', JStr []),
            (''created_at'', JStr ''2023-10-15T12:00:00.000Z''),
            (''user_id'', JStr ''b''),
            (''user_email'', JStr ''unknown@example.com''),
            (''room_id'', JStr ''00000000-0000-4000-8000-00000000000a'')]"
    by (simp add: validation_defs client_examples)
  moreover from len obtain a b where "validated = [a, b]"
    by (cases validated; cases "tl validated") auto
  ultimately have "validated =
     [JObj [(''id'', JStr ''00000000-0000-4000-8000-000000000001''),
            (''content'', JStr ''hello''),
            (''created_at'', JStr ''2023-10-15T11:00:00.000Z''),
            (''user_id'', JStr ''00000000-0000-4000-8000-000000000002''),
            (''user_email'', JStr ''a@example.com'')],
      JObj [(''id'', JStr ''a''),
            (''content'', JStr []),
            (''created_at'', JStr ''2023-10-15T12:00:00.000Z''),
            (''user_id'', JStr ''b''),
            (''user_email'', JStr ''unknown@example.com''),
            (''room_id'', JStr ''00000000-0000-4000-8000-00000000000a'')]]"
    by simp
  with run rows show ?thesis by simp
qed

text \<open>
  C7 as stated fails on a row whose fields are there but falsy. The row below has a
  \<open>content\<close> of \<open>0\<close> and an empty \<open>created_at\<close>: neither field is missing, the parse
  fails on \<open>content\<close> whatever the formats are, and the element that comes back has the
  empty string and the current time in their places. And a row that is \<open>null\<close> does
  make the fetch fail: the \<open>catch\<close> block raises on \<open>message.id\<close>, no message is
  stored and the validation error is shown.
\<close>

theorem C7_counterexample:
  "get_prop falsy_fields_row ''content'' = JNum 0
   \<and> get_prop falsy_fields_row ''created_at'' = JStr []
   \<and> MessageSchema_parse example_zod falsy_fields_row = None
   \<and> validatedMessages example_zod example_clock example_room 0 [falsy_fields_row]
       = Inr [JObj [(''id'', JStr ''a''),
                    (''content'', JStr []),
                    (''created_at'', JStr ''2023-10-15T12:00:00.000Z''),
                    (''user_id'', JStr ''b''),
                    (''user_email'', JStr ''unknown@example.com''),
                    (''room_id'', JStr ''00000000-0000-4000-8000-00000000000a'')]]
   \<and> validatedMessages example_zod example_clock example_room 0 [JNull] = Inl TypeError
   \<and> fetchMessages example_zod [] example_clock example_room (JArr [JNull]) JNull
         empty_interface
       = \<lparr>ci_messages = [], ci_loading = False,
          ci_error = Some ''Message data validation error''\<rparr>"
  by (simp add: validation_defs validate_message_def message_defaults_def js_or_def
      fetchMessages_def client_examples)

section \<open>Properties of \<open>find_or_create_conversation\<close>\<close>

lemmas example_states =
  no_conversation_db_def one_conversation_db_def two_conversations_db_def
  server_a_def server_b_def

lemmas foc_defs =
  find_or_create_conversation_def select_existing_conversation_def existing_conversations_def
  participant_count_def limit_1_def insert_new_conversation_def insert_participant_def
  participant_references_ok_def rpc_find_or_create_conversation_def Let_def

lemma two_rows:
  assumes "length xs = 2" "a \<in> set xs" "b \<in> set xs" "a \<noteq> b"
  shows "set xs = {a, b}"
proof -
  from assms(1) obtain x y where xs: "xs = [x, y]"
    by (cases xs; cases "tl xs") auto
  with assms(2-4) show ?thesis by auto
qed

lemma set_existing_conversations:
  "set (existing_conversations db u1 u2) =
     {c. c \<in> dc_id ` set (direct_conversations db)
         \<and> (\<exists>p1 \<in> set (participants_of db c). dp_user_id p1 = u1)
         \<and> (\<exists>p2 \<in> set (participants_of db c). dp_user_id p2 = u2)
         \<and> length (participants_of db c) = 2}"
proof (intro set_eqI iffI)
  fix c
  assume "c \<in> set (existing_conversations db u1 u2)"
  then obtain cv p1 p2 where
    "cv \<in> set (direct_conversations db)" "c = dc_id cv"
    "p1 \<in> set (direct_participants db)" "dp_conversation_id p1 = c" "dp_user_id p1 = u1"
    "p2 \<in> set (direct_participants db)" "dp_conversation_id p2 = c" "dp_user_id p2 = u2"
    "participant_count db c = 2"
    unfolding existing_conversations_def by auto
  then show "c \<in> {c. c \<in> dc_id ` set (direct_conversations db)
         \<and> (\<exists>p1 \<in> set (participants_of db c). dp_user_id p1 = u1)
         \<and> (\<exists>p2 \<in> set (participants_of db c). dp_user_id p2 = u2)
         \<and> length (participants_of db c) = 2}"
    unfolding participant_count_def participants_of_def by auto
next
  fix c
  assume "c \<in> {c. c \<in> dc_id ` set (direct_conversations db)
         \<and> (\<exists>p1 \<in> set (participants_of db c). dp_user_id p1 = u1)
         \<and> (\<exists>p2 \<in> set (participants_of db c). dp_user_id p2 = u2)
         \<and> length (participants_of db c) = 2}"
  then obtain cv p1 p2 where
    "cv \<in> set (direct_conversations db)" "dc_id cv = c"
    "p1 \<in> set (direct_participants db)" "dp_conversation_id p1 = c" "dp_user_id p1 = u1"
    "p2 \<in> set (direct_participants db)" "dp_conversation_id p2 = c" "dp_user_id p2 = u2"
    "participant_count db c = 2"
    unfolding participant_count_def participants_of_def by auto
  then show "c \<in> set (existing_conversations db u1 u2)"
    unfolding existing_conversations_def by force
qed

lemma existing_conversations_exact:
  assumes "u1 \<noteq> u2"
  shows "set (existing_conversations db u1 u2) = {c. conversation_of_exactly db c u1 u2}"
proof -
  have "(\<exists>p1 \<in> set ps. dp_user_id p1 = u1) \<and> (\<exists>p2 \<in> set ps. dp_user_id p2 = u2)
          \<and> length ps = 2
        \<longleftrightarrow> length ps = 2 \<and> dp_user_id ` set ps = {u1, u2}" for ps :: "direct_participant list"
  proof
    assume h: "(\<exists>p1 \<in> set ps. dp_user_id p1 = u1) \<and> (\<exists>p2 \<in> set ps. dp_user_id p2 = u2)
          \<and> length ps = 2"
    then obtain p1 p2 where p: "p1 \<in> set ps" "dp_user_id p1 = u1" "p2 \<in> set ps" "dp_user_id p2 = u2"
      by blast
    with assms have "p1 \<noteq> p2" by auto
    with h p have "set ps = {p1, p2}" by (intro two_rows) auto
    with p h show "length ps = 2 \<and> dp_user_id ` set ps = {u1, u2}" by simp
  next
    assume h: "length ps = 2 \<and> dp_user_id ` set ps = {u1, u2}"
    then have "u1 \<in> dp_user_id ` set ps" "u2 \<in> dp_user_id ` set ps" by simp_all
    then obtain p1 p2 where "p1 \<in> set ps" "dp_user_id p1 = u1" "p2 \<in> set ps" "dp_user_id p2 = u2"
      by auto
    with h show "(\<exists>p1 \<in> set ps. dp_user_id p1 = u1) \<and> (\<exists>p2 \<in> set ps. dp_user_id p2 = u2)
          \<and> length ps = 2" by auto
  qed
  then show ?thesis
    unfolding set_existing_conversations conversation_of_exactly_def by blast
qed

lemma limit_1_None: "limit_1 k rows = None \<longleftrightarrow> rows = []"
  by (simp add: limit_1_def)

lemma limit_1_Some: "limit_1 k rows = Some x \<Longrightarrow> x \<in> set rows"
  by (auto simp: limit_1_def split: if_splits)

lemma insert_new_conversation_fresh:
  assumes fk: "participants_reference_conversations db"
    and c: "conversation_uuid srv \<notin> dc_id ` set (direct_conversations db)"
    and p1: "participant1_uuid srv \<notin> dp_id ` set (direct_participants db)"
    and p2: "participant2_uuid srv \<notin> dp_id ` set (direct_participants db)"
    and p12: "participant1_uuid srv \<noteq> participant2_uuid srv"
    and u: "u1 \<in> auth_users db" "u2 \<in> auth_users db" "u1 \<noteq> u2"
  shows "insert_new_conversation srv db u1 u2 =
     Inr (conversation_uuid srv,
          db\<lparr>direct_conversations := direct_conversations db
                @ [\<lparr>dc_id = conversation_uuid srv, dc_created_at = srv_now srv,
                     dc_updated_at = srv_now srv\<rparr>],
             direct_participants := direct_participants db
                @ [\<lparr>dp_id = participant1_uuid srv, dp_conversation_id = conversation_uuid srv,
                     dp_user_id = u1, dp_joined_at = srv_now srv\<rparr>,
                   \<lparr>dp_id = participant2_uuid srv, dp_conversation_id = conversation_uuid srv,
                     dp_user_id = u2, dp_joined_at = srv_now srv\<rparr>]\<rparr>)"
proof -
  from fk c have nopair: "\<And>u. (conversation_uuid srv, u)
      \<notin> (\<lambda>q. (dp_conversation_id q, dp_user_id q)) ` set (direct_participants db)"
    unfolding participants_reference_conversations_def by auto
  show ?thesis
    using c p1 p2 p12 u nopair
    by (simp add: insert_new_conversation_def insert_participant_def
        participant_references_ok_def Let_def)
qed

text \<open>
  C1. Let \<open>user1_id\<close> and \<open>user2_id\<close> be distinct. If some conversation has exactly two
  participant rows, one for each of them, the function returns the id of such a
  conversation and the database is as before. Otherwise, when both are users, the
  participant rows of the database refer to conversations that exist, and the three
  generated ids are not in use, the function returns the generated conversation id and
  the database has gained exactly that conversation and exactly two participant rows for
  it, one for \<open>user1_id\<close> and one for \<open>user2_id\<close>.
\<close>

theorem C1_find_or_create_conversation:
  assumes "user1_id \<noteq> user2_id"
  shows "((\<exists>c. conversation_of_exactly db c user1_id user2_id) \<longrightarrow>
           (\<exists>c. find_or_create_conversation srv db user1_id user2_id = Inr (c, db)
                \<and> conversation_of_exactly db c user1_id user2_id))
       \<and> (\<not> (\<exists>c. conversation_of_exactly db c user1_id user2_id)
            \<and> participants_reference_conversations db
            \<and> user1_id \<in> auth_users db \<and> user2_id \<in> auth_users db
            \<and> conversation_uuid srv \<notin> dc_id ` set (direct_conversations db)
            \<and> participant1_uuid srv \<notin> dp_id ` set (direct_participants db)
            \<and> participant2_uuid srv \<notin> dp_id ` set (direct_participants db)
            \<and> participant1_uuid srv \<noteq> participant2_uuid srv \<longrightarrow>
           find_or_create_conversation srv db user1_id user2_id =
             Inr (conversation_uuid srv,
                  db\<lparr>direct_conversations := direct_conversations db
                        @ [\<lparr>dc_id = conversation_uuid srv, dc_created_at = srv_now srv,
                             dc_updated_at = srv_now srv\<rparr>],
                     direct_participants := direct_participants db
                        @ [\<lparr>dp_id = participant1_uuid srv,
                             dp_conversation_id = conversation_uuid srv,
                             dp_user_id = user1_id, dp_joined_at = srv_now srv\<rparr>,
                           \<lparr>dp_id = participant2_uuid srv,
                             dp_conversation_id = conversation_uuid srv,
                             dp_user_id = user2_id, dp_joined_at = srv_now srv\<rparr>]\<rparr>))"
proof (intro conjI impI)
  assume "\<exists>c. conversation_of_exactly db c user1_id user2_id"
  then have ne: "existing_conversations db user1_id user2_id \<noteq> []"
    using existing_conversations_exact [OF assms, of db] by auto
  then obtain c where sel: "select_existing_conversation srv db user1_id user2_id = Some c"
    by (auto simp: select_existing_conversation_def limit_1_def)
  then have "c \<in> set (existing_conversations db user1_id user2_id)"
    unfolding select_existing_conversation_def by (rule limit_1_Some)
  then have "conversation_of_exactly db c user1_id user2_id"
    using existing_conversations_exact [OF assms, of db] by auto
  with sel show "\<exists>c. find_or_create_conversation srv db user1_id user2_id = Inr (c, db)
                \<and> conversation_of_exactly db c user1_id user2_id"
    by (auto simp: find_or_create_conversation_def)
next
  assume h: "\<not> (\<exists>c. conversation_of_exactly db c user1_id user2_id)
            \<and> participants_reference_conversations db
            \<and> user1_id \<in> auth_users db \<and> user2_id \<in> auth_users db
            \<and> conversation_uuid srv \<notin> dc_id ` set (direct_conversations db)
            \<and> participant1_uuid srv \<notin> dp_id ` set (direct_participants db)
            \<and> participant2_uuid srv \<notin> dp_id ` set (direct_participants db)
            \<and> participant1_uuid srv \<noteq> participant2_uuid srv"
  then have "set (existing_conversations db user1_id user2_id) = {}"
    using existing_conversations_exact [OF assms, of db] by auto
  then have "select_existing_conversation srv db user1_id user2_id = None"
    by (simp add: select_existing_conversation_def limit_1_def)
  then have "find_or_create_conversation srv db user1_id user2_id
               = insert_new_conversation srv db user1_id user2_id"
    by (simp add: find_or_create_conversation_def)
  with h assms show "find_or_create_conversation srv db user1_id user2_id =
             Inr (conversation_uuid srv,
                  db\<lparr>direct_conversations := direct_conversations db
                        @ [\<lparr>dc_id = conversation_uuid srv, dc_created_at = srv_now srv,
                             dc_updated_at = srv_now srv\<rparr>],
                     direct_participants := direct_participants db
                        @ [\<lparr>dp_id = participant1_uuid srv,
                             dp_conversation_id = conversation_uuid srv,
                             dp_user_id = user1_id, dp_joined_at = srv_now srv\<rparr>,
                           \<lparr>dp_id = participant2_uuid srv,
                             dp_conversation_id = conversation_uuid srv,
                             dp_user_id = user2_id, dp_joined_at = srv_now srv\<rparr>]\<rparr>)"
    by (simp add: insert_new_conversation_fresh)
qed

text \<open>
  C1 at users 1 and 2: on a database without conversations the call creates conversation
  10 with its two participant rows; on the database that results, the call finds it.
\<close>

theorem C1_find_or_create_conversation_witness:
  "(1::nat) \<noteq> 2
   \<and> find_or_create_conversation server_a no_conversation_db 1 2 = Inr (10, one_conversation_db)
   \<and> (\<exists>c. find_or_create_conversation server_b one_conversation_db 1 2
             = Inr (c, one_conversation_db)
          \<and> conversation_of_exactly one_conversation_db c 1 2)"
proof -
  have found: "\<exists>c. conversation_of_exactly one_conversation_db c 1 2"
    by (rule exI [of _ 10])
      (simp add: conversation_of_exactly_def participants_of_def example_states)
  have fresh: "\<not> (\<exists>c. conversation_of_exactly no_conversation_db c 1 2)
      \<and> participants_reference_conversations no_conversation_db
      \<and> 1 \<in> auth_users no_conversation_db \<and> 2 \<in> auth_users no_conversation_db
      \<and> conversation_uuid server_a \<notin> dc_id ` set (direct_conversations no_conversation_db)
      \<and> participant1_uuid server_a \<notin> dp_id ` set (direct_participants no_conversation_db)
      \<and> participant2_uuid server_a \<notin> dp_id ` set (direct_participants no_conversation_db)
      \<and> participant1_uuid server_a \<noteq> participant2_uuid server_a"
    by (simp add: conversation_of_exactly_def participants_reference_conversations_def
        example_states)
  have ne: "(1::nat) \<noteq> 2" by simp
  from C1_find_or_create_conversation [OF ne, of one_conversation_db server_b] found
  have a: "\<exists>c. find_or_create_conversation server_b one_conversation_db 1 2
             = Inr (c, one_conversation_db)
          \<and> conversation_of_exactly one_conversation_db c 1 2"
    by blast
  from C1_find_or_create_conversation [OF ne, of no_conversation_db server_a] fresh
  have "find_or_create_conversation server_a no_conversation_db 1 2 =
      Inr (conversation_uuid server_a,
           no_conversation_db\<lparr>direct_conversations := direct_conversations no_conversation_db
                 @ [\<lparr>dc_id = conversation_uuid server_a, dc_created_at = srv_now server_a,
                      dc_updated_at = srv_now server_a\<rparr>],
              direct_participants := direct_participants no_conversation_db
                 @ [\<lparr>dp_id = participant1_uuid server_a,
                      dp_conversation_id = conversation_uuid server_a,
                      dp_user_id = 1, dp_joined_at = srv_now server_a\<rparr>,
                    \<lparr>dp_id = participant2_uuid server_a,
                      dp_conversation_id = conversation_uuid server_a,
                      dp_user_id = 2, dp_joined_at = srv_now server_a\<rparr>]\<rparr>)"
    by blast
  then have b: "find_or_create_conversation server_a no_conversation_db 1 2
      = Inr (10, one_conversation_db)"
    by (simp add: example_states)
  from ne a b show ?thesis by blast
qed

lemma conversation_of_exactly_commute:
  "conversation_of_exactly db c u1 u2 = conversation_of_exactly db c u2 u1"
  by (simp add: conversation_of_exactly_def insert_commute)

lemma insert_new_conversation_success:
  assumes "insert_new_conversation srv db u1 u2 = Inr (c, db1)"
  shows "c = conversation_uuid srv"
    and "c \<notin> dc_id ` set (direct_conversations db)"
    and "db1 = db\<lparr>direct_conversations := direct_conversations db
                @ [\<lparr>dc_id = c, dc_created_at = srv_now srv, dc_updated_at = srv_now srv\<rparr>],
             direct_participants := direct_participants db
                @ [\<lparr>dp_id = participant1_uuid srv, dp_conversation_id = c,
                     dp_user_id = u1, dp_joined_at = srv_now srv\<rparr>,
                   \<lparr>dp_id = participant2_uuid srv, dp_conversation_id = c,
                     dp_user_id = u2, dp_joined_at = srv_now srv\<rparr>]\<rparr>"
  using assms
  by (auto simp: insert_new_conversation_def insert_participant_def Let_def
      split: if_splits sum.splits)

lemma created_conversation_is_the_one:
  assumes ne: "u1 \<noteq> u2"
    and fk: "participants_reference_conversations db"
    and none: "\<And>c'. \<not> conversation_of_exactly db c' u1 u2"
    and ins: "insert_new_conversation srv db u1 u2 = Inr (c, db1)"
  shows "conversation_of_exactly db1 c' u1 u2 \<longleftrightarrow> c' = c"
    and "participants_reference_conversations db1"
proof -
  note s = insert_new_conversation_success [OF ins]
  from fk s(2) have old: "participants_of db c = []"
    unfolding participants_reference_conversations_def participants_of_def
    by (auto simp: filter_empty_conv)
  have new: "participants_of db1 c =
      [\<lparr>dp_id = participant1_uuid srv, dp_conversation_id = c,
         dp_user_id = u1, dp_joined_at = srv_now srv\<rparr>,
       \<lparr>dp_id = participant2_uuid srv, dp_conversation_id = c,
         dp_user_id = u2, dp_joined_at = srv_now srv\<rparr>]"
    using old unfolding s(3) participants_of_def by simp
  have other: "participants_of db1 c' = participants_of db c'" if "c' \<noteq> c" for c'
    using that unfolding s(3) participants_of_def by simp
  have convs: "dc_id ` set (direct_conversations db1)
      = insert c (dc_id ` set (direct_conversations db))"
    unfolding s(3) by simp
  show "conversation_of_exactly db1 c' u1 u2 \<longleftrightarrow> c' = c"
  proof (cases "c' = c")
    case True
    then show ?thesis using new convs by (simp add: conversation_of_exactly_def)
  next
    case False
    then show ?thesis
      using other [OF False] convs none [of c'] by (simp add: conversation_of_exactly_def)
  qed
  show "participants_reference_conversations db1"
    using fk unfolding participants_reference_conversations_def convs
    unfolding s(3) by auto
qed

lemma find_or_create_conversation_establishes:
  assumes ne: "u1 \<noteq> u2"
    and fk: "participants_reference_conversations db"
    and one: "at_most_one_conversation db u1 u2"
    and call: "find_or_create_conversation srv db u1 u2 = Inr (c, db1)"
  shows "conversation_of_exactly db1 c' u1 u2 \<longleftrightarrow> c' = c"
    and "participants_reference_conversations db1"
proof -
  show "conversation_of_exactly db1 c' u1 u2 \<longleftrightarrow> c' = c"
  proof (cases "select_existing_conversation srv db u1 u2")
    case None
    then have "set (existing_conversations db u1 u2) = {}"
      by (simp add: select_existing_conversation_def limit_1_None)
    then have none: "\<And>c'. \<not> conversation_of_exactly db c' u1 u2"
      using existing_conversations_exact [OF ne, of db] by auto
    from None call have "insert_new_conversation srv db u1 u2 = Inr (c, db1)"
      by (simp add: find_or_create_conversation_def)
    from created_conversation_is_the_one(1) [OF ne fk none this] show ?thesis .
  next
    case (Some x)
    with call have eq: "x = c" "db1 = db" by (simp_all add: find_or_create_conversation_def)
    from Some have "x \<in> set (existing_conversations db u1 u2)"
      unfolding select_existing_conversation_def by (rule limit_1_Some)
    then have "conversation_of_exactly db c u1 u2"
      using existing_conversations_exact [OF ne, of db] eq by auto
    then show ?thesis using one eq unfolding at_most_one_conversation_def by blast
  qed
  show "participants_reference_conversations db1"
  proof (cases "select_existing_conversation srv db u1 u2")
    case None
    then have "set (existing_conversations db u1 u2) = {}"
      by (simp add: select_existing_conversation_def limit_1_None)
    then have none: "\<And>c'. \<not> conversation_of_exactly db c' u1 u2"
      using existing_conversations_exact [OF ne, of db] by auto
    from None call have "insert_new_conversation srv db u1 u2 = Inr (c, db1)"
      by (simp add: find_or_create_conversation_def)
    from created_conversation_is_the_one(2) [OF ne fk none this] show ?thesis .
  next
    case (Some x)
    with call fk show ?thesis by (simp add: find_or_create_conversation_def)
  qed
qed

lemma find_or_create_conversation_finds_the_one:
  assumes ne: "u1 \<noteq> u2"
    and only: "\<And>c'. conversation_of_exactly db c' u1 u2 \<longleftrightarrow> c' = c"
  shows "find_or_create_conversation srv db u1 u2 = Inr (c, db)"
proof -
  have s: "set (existing_conversations db u1 u2) = {c}"
    using existing_conversations_exact [OF ne, of db] only by auto
  then have "existing_conversations db u1 u2 \<noteq> []" by auto
  then obtain x where x: "select_existing_conversation srv db u1 u2 = Some x"
    by (auto simp: select_existing_conversation_def limit_1_def)
  then have "x \<in> set (existing_conversations db u1 u2)"
    unfolding select_existing_conversation_def by (rule limit_1_Some)
  with s have "x = c" by simp
  with x show ?thesis by (simp add: find_or_create_conversation_def)
qed

lemma concat_guarded_singletons:
  "concat (map (\<lambda>y. if Q y then [v] else []) ys) = replicate (length (filter Q ys)) v"
  by (induction ys) auto

lemma concat_guarded_copies:
  "concat (map (\<lambda>x. if P x then replicate m v else []) xs)
     = replicate (length (filter P xs) * m) v"
  by (induction xs) (auto simp: replicate_add)

lemma concat_nothing: "concat (map (\<lambda>x. []) xs) = []"
  by (induction xs) auto

lemma nested_comprehension:
  "concat (map (\<lambda>x. if P x
                     then concat (map (\<lambda>y. if Q y then (if R then [v] else []) else []) ys)
                     else []) xs)
     = (if R then replicate (length (filter P xs) * length (filter Q ys)) v else [])"
proof (cases R)
  case True
  then show ?thesis
    by (simp add: concat_guarded_singletons concat_guarded_copies cong: if_cong)
next
  case False
  then show ?thesis by (simp add: concat_nothing cong: if_cong)
qed

lemma existing_conversations_count:
  "existing_conversations db u1 u2 =
     concat (map (\<lambda>c.
       if participant_count db (dc_id c) = 2
       then replicate
              (length [p \<leftarrow> direct_participants db.
                         dc_id c = dp_conversation_id p \<and> dp_user_id p = u1]
               * length [p \<leftarrow> direct_participants db.
                           dc_id c = dp_conversation_id p \<and> dp_user_id p = u2])
              (dc_id c)
       else []) (direct_conversations db))"
  unfolding existing_conversations_def by (simp only: nested_comprehension)

lemma existing_conversations_commute:
  "existing_conversations db u1 u2 = existing_conversations db u2 u1"
  by (simp only: existing_conversations_count mult.commute)

lemma later_call_returns_the_same:
  assumes ne: "u1 \<noteq> u2"
    and fk: "participants_reference_conversations db"
    and call: "find_or_create_conversation srv db u1 u2 = Inr (c, db1)"
    and pick: "first_row srv' = first_row srv"
    and ab: "(a, b) = (u1, u2) \<or> (a, b) = (u2, u1)"
  shows "find_or_create_conversation srv' db1 a b = Inr (c, db1)"
proof (cases "select_existing_conversation srv db u1 u2")
  case None
  then have "set (existing_conversations db u1 u2) = {}"
    by (simp add: select_existing_conversation_def limit_1_None)
  then have none: "\<And>c'. \<not> conversation_of_exactly db c' u1 u2"
    using existing_conversations_exact [OF ne, of db] by auto
  from None call have ins: "insert_new_conversation srv db u1 u2 = Inr (c, db1)"
    by (simp add: find_or_create_conversation_def)
  have only: "\<And>c'. conversation_of_exactly db1 c' u1 u2 \<longleftrightarrow> c' = c"
    by (rule created_conversation_is_the_one(1) [OF ne fk none ins])
  then have only': "\<And>c'. conversation_of_exactly db1 c' u2 u1 \<longleftrightarrow> c' = c"
    by (simp add: conversation_of_exactly_commute)
  from ab show ?thesis
    using find_or_create_conversation_finds_the_one [OF ne only, of srv']
      find_or_create_conversation_finds_the_one [OF ne [symmetric] only', of srv']
    by auto
next
  case (Some x)
  with call have eq: "x = c" "db1 = db" by (simp_all add: find_or_create_conversation_def)
  have rows: "existing_conversations db a b = existing_conversations db u1 u2"
    using ab existing_conversations_commute [of db u2 u1] by auto
  from Some pick rows eq have "select_existing_conversation srv' db a b = Some c"
    by (simp add: select_existing_conversation_def)
  with eq show ?thesis by (simp add: find_or_create_conversation_def)
qed

lemma later_calls_return_the_same:
  assumes later: "\<And>srv' a b. (srv', a, b) \<in> set calls
                    \<Longrightarrow> find_or_create_conversation srv' db1 a b = Inr (c, db1)"
  shows "rpc_sequence db1 calls = (replicate (length calls) (Inr c), db1)"
  using later
proof (induction calls)
  case Nil
  show ?case by simp
next
  case (Cons call calls)
  obtain srv' a b where call: "call = (srv', a, b)" by (cases call) auto
  with Cons.prems have "find_or_create_conversation srv' db1 a b = Inr (c, db1)" by simp
  then have "rpc_find_or_create_conversation srv' db1 a b = (Inr c, db1)"
    by (simp add: rpc_find_or_create_conversation_def)
  moreover from Cons have "rpc_sequence db1 calls = (replicate (length calls) (Inr c), db1)"
    by simp
  ultimately show ?case using call by simp
qed

text \<open>
  C5, as the code has it. Let \<open>user1_id\<close> and \<open>user2_id\<close> be distinct, in a database
  whose participant rows refer to conversations that exist. After a call for them has
  returned \<open>c\<close>, every later call for them, in either order of the arguments and
  whatever ids and time the server would generate, returns \<open>c\<close> and leaves the database
  as it is. The later calls read the rows that the first call read or wrote, and the
  server delivers the rows of an unchanged table as it did before: the later calls take
  the row of \<open>LIMIT 1\<close> at the position at which the first call took it.
\<close>

theorem C5_idempotent:
  assumes "user1_id \<noteq> user2_id"
    and "participants_reference_conversations db"
    and "find_or_create_conversation srv db user1_id user2_id = Inr (c, db1)"
    and "\<forall>(srv', a, b) \<in> set calls.
           first_row srv' = first_row srv
           \<and> ((a, b) = (user1_id, user2_id) \<or> (a, b) = (user2_id, user1_id))"
  shows "rpc_sequence db1 calls = (replicate (length calls) (Inr c), db1)"
proof (rule later_calls_return_the_same)
  fix srv' a b
  assume "(srv', a, b) \<in> set calls"
  with assms(4) have "first_row srv' = first_row srv"
    "(a, b) = (user1_id, user2_id) \<or> (a, b) = (user2_id, user1_id)"
    by auto
  then show "find_or_create_conversation srv' db1 a b = Inr (c, db1)"
    by (rule later_call_returns_the_same [OF assms(1-3)])
qed

text \<open>
  C5 at users 1 and 2. On the database without conversations the first call creates
  conversation 10, and the two calls after it, one with the arguments swapped, return 10
  and change nothing. On the database with the two conversations 10 and 20 of users 1
  and 2, a first call that is given the second row returns 20, and so do the two calls
  after it.
\<close>

theorem C5_idempotent_witness:
  "find_or_create_conversation server_a no_conversation_db 1 2 = Inr (10, one_conversation_db)
   \<and> rpc_sequence one_conversation_db
         [(server_b\<lparr>first_row := 0\<rparr>, 2, 1), (server_a, 1, 2)]
       = ([Inr 10, Inr 10], one_conversation_db)
   \<and> find_or_create_conversation server_b two_conversations_db 1 2
       = Inr (20, two_conversations_db)
   \<and> rpc_sequence two_conversations_db
         [(server_b, 2, 1), (server_a\<lparr>first_row := 1\<rparr>, 1, 2)]
       = ([Inr 20, Inr 20], two_conversations_db)"
proof -
  have ne: "(1::nat) \<noteq> 2" by simp
  have fk: "participants_reference_conversations no_conversation_db"
    "participants_reference_conversations two_conversations_db"
    by (simp_all add: participants_reference_conversations_def example_states)
  have first: "find_or_create_conversation server_a no_conversation_db 1 2
      = Inr (10, one_conversation_db)"
    "find_or_create_conversation server_b two_conversations_db 1 2
      = Inr (20, two_conversations_db)"
    by (simp_all add: foc_defs example_states)
  have calls: "\<forall>(srv', a, b) \<in> set [(server_b\<lparr>first_row := 0\<rparr>, 2, 1), (server_a, 1, 2)].
      first_row srv' = first_row server_a \<and> ((a, b) = (1::nat, 2::nat) \<or> (a, b) = (2, 1))"
    "\<forall>(srv', a, b) \<in> set [(server_b, 2, 1), (server_a\<lparr>first_row := 1\<rparr>, 1, 2)].
      first_row srv' = first_row server_b \<and> ((a, b) = (1::nat, 2::nat) \<or> (a, b) = (2, 1))"
    by (simp_all add: example_states)
  from C5_idempotent [OF ne fk(1) first(1) calls(1)]
    C5_idempotent [OF ne fk(2) first(2) calls(2)] first
  show ?thesis by simp
qed

lemma rpc_preserves_at_most_one:
  assumes ne: "u1 \<noteq> u2"
    and fk: "participants_reference_conversations db"
    and one: "at_most_one_conversation db u1 u2"
    and ab: "(a, b) = (u1, u2) \<or> (a, b) = (u2, u1)"
    and rpc: "rpc_find_or_create_conversation srv db a b = (r, db1)"
  shows "participants_reference_conversations db1 \<and> at_most_one_conversation db1 u1 u2"
proof (cases "find_or_create_conversation srv db a b")
  case (Inl e)
  with rpc fk one show ?thesis by (simp add: rpc_find_or_create_conversation_def)
next
  case (Inr cd)
  obtain c d where cd: "cd = (c, d)" by (cases cd) auto
  with Inr rpc have d: "d = db1" by (simp add: rpc_find_or_create_conversation_def)
  have one': "at_most_one_conversation db u2 u1"
    using one by (simp add: at_most_one_conversation_def conversation_of_exactly_commute)
  from ab show ?thesis
  proof
    assume "(a, b) = (u1, u2)"
    with Inr cd d have call: "find_or_create_conversation srv db u1 u2 = Inr (c, db1)" by simp
    from find_or_create_conversation_establishes [OF ne fk one call]
    show ?thesis by (simp add: at_most_one_conversation_def)
  next
    assume "(a, b) = (u2, u1)"
    with Inr cd d have call: "find_or_create_conversation srv db u2 u1 = Inr (c, db1)" by simp
    from find_or_create_conversation_establishes [OF ne [symmetric] fk one' call]
    show ?thesis by (simp add: at_most_one_conversation_def conversation_of_exactly_commute)
  qed
qed

lemma rpc_sequence_preserves_at_most_one:
  assumes ne: "u1 \<noteq> u2"
    and calls: "\<forall>(srv, a, b) \<in> set calls. (a, b) = (u1, u2) \<or> (a, b) = (u2, u1)"
    and inv: "participants_reference_conversations db" "at_most_one_conversation db u1 u2"
  shows "at_most_one_conversation (snd (rpc_sequence db calls)) u1 u2"
  using calls inv
proof (induction calls arbitrary: db)
  case Nil
  then show ?case by simp
next
  case (Cons call calls)
  obtain srv a b where call: "call = (srv, a, b)" by (cases call) auto
  with Cons.prems have ab: "(a, b) = (u1, u2) \<or> (a, b) = (u2, u1)" by simp
  obtain r db1 where rpc: "rpc_find_or_create_conversation srv db a b = (r, db1)"
    by (cases "rpc_find_or_create_conversation srv db a b") auto
  from rpc_preserves_at_most_one [OF ne Cons.prems(2,3) ab rpc]
  have inv1: "participants_reference_conversations db1" "at_most_one_conversation db1 u1 u2"
    by simp_all
  from Cons.prems(1) have rest: "\<forall>(srv, a, b) \<in> set calls. (a, b) = (u1, u2) \<or> (a, b) = (u2, u1)"
    by simp
  from Cons.IH [OF rest inv1] show ?case
    using call rpc by (auto split: prod.splits)
qed

lemma call_both_steps:
  "call_step (fst (call_step db (Called srv a b))) (snd (call_step db (Called srv a b)))
     = (snd (rpc_find_or_create_conversation srv db a b),
        Returned (fst (rpc_find_or_create_conversation srv db a b)))"
  by (cases "select_existing_conversation srv db a b")
    (auto simp: rpc_find_or_create_conversation_def find_or_create_conversation_def
      split: sum.splits)

lemma one_after_the_other_Suc:
  "one_after_the_other first (Suc n) = first # first # one_after_the_other (Suc first) n"
  by (simp add: one_after_the_other_def upt_conv_Cons del: upt_Suc)

lemma run_one_after_the_other:
  "run_schedule db (finished @ map start_call calls)
       (one_after_the_other (length finished) (length calls))
     = (snd (rpc_sequence db calls),
        finished @ map Returned (fst (rpc_sequence db calls)))"
proof (induction calls arbitrary: db finished)
  case Nil
  show ?case by (simp add: one_after_the_other_def)
next
  case (Cons call calls)
  obtain srv a b where call: "call = (srv, a, b)" by (cases call) auto
  obtain r db1 where rpc: "rpc_find_or_create_conversation srv db a b = (r, db1)"
    by (cases "rpc_find_or_create_conversation srv db a b") auto
  obtain rs db2 where rest: "rpc_sequence db1 calls = (rs, db2)"
    by (cases "rpc_sequence db1 calls") auto
  let ?n = "length finished"
  let ?cs = "finished @ map start_call (call # calls)"
  have at: "?cs ! ?n = Called srv a b" "?n < length ?cs"
    by (simp_all add: call start_call_def)
  obtain dbm s where step1: "call_step db (Called srv a b) = (dbm, s)"
    by (cases "call_step db (Called srv a b)") auto
  from call_both_steps [of db srv a b] step1 rpc
  have step2: "call_step dbm s = (db1, Returned r)" by auto
  have upd1: "?cs[?n := s] = finished @ s # map start_call calls"
    by (simp add: list_update_append)
  have upd2: "(finished @ s # map start_call calls)[?n := Returned r]
      = (finished @ [Returned r]) @ map start_call calls"
    by (simp add: list_update_append)
  have first: "run_schedule db ?cs (?n # ?n # one_after_the_other (Suc ?n) (length calls))
      = run_schedule dbm (finished @ s # map start_call calls)
          (?n # one_after_the_other (Suc ?n) (length calls))"
    using at upd1 by (simp only: run_schedule.simps if_True step1 prod.case)
  have at2: "(finished @ s # map start_call calls) ! ?n = s"
    "?n < length (finished @ s # map start_call calls)"
    by simp_all
  have second: "run_schedule dbm (finished @ s # map start_call calls)
          (?n # one_after_the_other (Suc ?n) (length calls))
      = run_schedule db1 ((finished @ [Returned r]) @ map start_call calls)
          (one_after_the_other (Suc ?n) (length calls))"
    using at2 upd2 by (simp only: run_schedule.simps if_True step2 prod.case)
  have "run_schedule db ?cs (one_after_the_other ?n (length (call # calls)))
      = run_schedule db1 ((finished @ [Returned r]) @ map start_call calls)
          (one_after_the_other (length (finished @ [Returned r])) (length calls))"
    using first second by (simp add: one_after_the_other_Suc)
  also have "\<dots> = (snd (rpc_sequence db1 calls),
      (finished @ [Returned r]) @ map Returned (fst (rpc_sequence db1 calls)))"
    by (rule Cons.IH)
  finally show ?case using call rpc rest by simp
qed

lemma run_calls_one_after_the_other:
  "run_schedule db (map start_call calls) (one_after_the_other 0 (length calls))
     = (snd (rpc_sequence db calls), map Returned (fst (rpc_sequence db calls)))"
  using run_one_after_the_other [of db "[]" calls] by simp

text \<open>
  Every step of a schedule whose selects wait for the inserts keeps the invariant of the
  calls in flight.
\<close>

lemma select_nothing_means_none:
  assumes ne: "u1 \<noteq> u2"
    and ab: "(a, b) = (u1, u2) \<or> (a, b) = (u2, u1)"
    and sel: "select_existing_conversation srv db a b = None"
  shows "\<not> conversation_of_exactly db c u1 u2"
proof -
  from sel have "set (existing_conversations db a b) = {}"
    by (simp add: select_existing_conversation_def limit_1_None)
  with ab have "set (existing_conversations db u1 u2) = {}"
    using existing_conversations_commute [of db u2 u1] by auto
  then show ?thesis using existing_conversations_exact [OF ne, of db] by auto
qed





text \<open>
  Two kinds of schedule whose selects wait for the inserts. Once a conversation of the
  two users exists, every schedule is one, since every \<open>SELECT\<close> finds a conversation
  and no call inserts; and the database stays as it is. Calls that run one after the
  other are one from every database. The schedule in which two calls both run their
  \<open>SELECT\<close> on the database without conversations before either inserts is not one.
\<close>

lemma select_finds_the_existing:
  assumes ne: "u1 \<noteq> u2"
    and ab: "(a, b) = (u1, u2) \<or> (a, b) = (u2, u1)"
    and ex: "conversation_of_exactly db c u1 u2"
  shows "select_existing_conversation srv db a b \<noteq> None"
proof
  assume "select_existing_conversation srv db a b = None"
  from select_nothing_means_none [OF ne ab this] ex show False by simp
qed

lemma step_once_conversation_exists:
  assumes ne: "u1 \<noteq> u2"
    and ex: "conversation_of_exactly db c u1 u2"
    and pair: "for_pair u1 u2 s"
    and quiet: "\<not> inserting s"
  shows "fst (call_step db s) = db \<and> for_pair u1 u2 (snd (call_step db s))
     \<and> \<not> inserting (snd (call_step db s))"
proof (cases s)
  case (Called srv a b)
  with pair have ab: "(a, b) = (u1, u2) \<or> (a, b) = (u2, u1)" by simp
  from select_finds_the_existing [OF ne ab ex, of srv] ab Called show ?thesis by auto
next
  case (Selected srv a b r)
  with quiet obtain x where "r = Some x" by (cases r) auto
  with Selected show ?thesis by simp
next
  case (Returned r)
  then show ?thesis by simp
qed

lemma every_schedule_once_conversation_exists:
  assumes ne: "u1 \<noteq> u2"
    and ex: "conversation_of_exactly db c u1 u2"
  shows "\<forall>s \<in> set cs. for_pair u1 u2 s \<and> \<not> inserting s
     \<Longrightarrow> selects_wait_for_inserts db cs schedule \<and> fst (run_schedule db cs schedule) = db"
proof (induction schedule arbitrary: cs)
  case Nil
  show ?case by simp
next
  case (Cons i schedule)
  show ?case
  proof (cases "i < length cs")
    case False
    with Cons show ?thesis by simp
  next
    case True
    obtain db' s where step: "call_step db (cs ! i) = (db', s)"
      by (cases "call_step db (cs ! i)") auto
    from True Cons.prems have at: "for_pair u1 u2 (cs ! i)" "\<not> inserting (cs ! i)" by simp_all
    from step_once_conversation_exists [OF ne ex at] step
    have s: "db' = db" "for_pair u1 u2 s" "\<not> inserting s" by simp_all
    have "\<forall>s \<in> set (cs[i := s]). for_pair u1 u2 s \<and> \<not> inserting s"
      using Cons.prems s(2,3) set_update_subset_insert [of cs i s] by auto
    from Cons.IH [OF this] have rest:
      "selects_wait_for_inserts db (cs[i := s]) schedule"
      "fst (run_schedule db (cs[i := s]) schedule) = db"
      by simp_all
    from Cons.prems have "\<not> list_ex inserting cs" by (simp add: list_ex_iff)
    with rest True step s(1) show ?thesis by simp
  qed
qed

lemma second_step_returns:
  "\<not> starting s \<Longrightarrow> \<exists>db1 r. call_step db s = (db1, Returned r)"
  by (cases "(db, s)" rule: call_step.cases) (auto split: sum.splits prod.splits)

lemma one_after_the_other_waits:
  "\<not> list_ex inserting finished
     \<Longrightarrow> selects_wait_for_inserts db (finished @ map start_call calls)
           (one_after_the_other (length finished) (length calls))"
proof (induction calls arbitrary: db finished)
  case Nil
  show ?case by (simp add: one_after_the_other_def)
next
  case (Cons call calls)
  obtain srv a b where call: "call = (srv, a, b)" by (cases call) auto
  let ?n = "length finished"
  let ?cs = "finished @ map start_call (call # calls)"
  have not_started: "\<not> list_ex inserting (map start_call (call # calls))"
    by (induction calls) (auto simp: start_call_def call split: prod.splits)
  with Cons.prems have quiet: "\<not> list_ex inserting ?cs" by simp
  have at: "?cs ! ?n = Called srv a b" "?n < length ?cs"
    by (simp_all add: call start_call_def)
  obtain dbm s where step1: "call_step db (Called srv a b) = (dbm, s)"
    by (cases "call_step db (Called srv a b)") auto
  then have s: "\<not> starting s" by auto
  from second_step_returns [OF s]
  obtain db1 r where step2: "call_step dbm s = (db1, Returned r)" by blast
  have upd1: "?cs[?n := s] = finished @ s # map start_call calls"
    by (simp add: list_update_append)
  have upd2: "(finished @ s # map start_call calls)[?n := Returned r]
      = (finished @ [Returned r]) @ map start_call calls"
    by (simp add: list_update_append)
  have at2: "(finished @ s # map start_call calls) ! ?n = s"
    "?n < length (finished @ s # map start_call calls)"
    by simp_all
  from Cons.prems have "\<not> list_ex inserting (finished @ [Returned r])" by simp
  from Cons.IH [OF this, of db1]
  have rest: "selects_wait_for_inserts db1 ((finished @ [Returned r]) @ map start_call calls)
      (one_after_the_other (Suc ?n) (length calls))"
    by simp
  have second: "selects_wait_for_inserts dbm (finished @ s # map start_call calls)
      (?n # one_after_the_other (Suc ?n) (length calls))"
    using at2 upd2 rest s
    by (simp only: selects_wait_for_inserts.simps if_True step2 prod.case simp_thms)
  have first: "selects_wait_for_inserts db ?cs
      (?n # ?n # one_after_the_other (Suc ?n) (length calls))"
    using at upd1 second quiet
    by (simp only: selects_wait_for_inserts.simps if_True step1 prod.case simp_thms)
  then show ?case by (simp add: one_after_the_other_Suc)
qed

lemma calls_one_after_the_other_wait:
  "selects_wait_for_inserts db (map start_call calls) (one_after_the_other 0 (length calls))"
  using one_after_the_other_waits [of "[]" db calls] by simp

lemma overlapping_selects_do_not_wait:
  "\<not> selects_wait_for_inserts no_conversation_db
       [Called server_a 1 2, Called server_b 1 2] [0, 1, 0, 1]"
  by (simp add: foc_defs example_states)




text \<open>
  C8, as the code has it. When user \<open>u\<close> has no participant row in any conversation
  that has exactly two participant rows, the call for \<open>(u, u)\<close> raises a unique
  violation, whatever ids the server generates, and the database is as before.
\<close>

theorem C8_self_call:
  assumes "\<not> (\<exists>c \<in> dc_id ` set (direct_conversations db).
              length (participants_of db c) = 2
              \<and> u \<in> dp_user_id ` set (participants_of db c))"
  shows "rpc_find_or_create_conversation srv db u u = (Inl UniqueViolation, db)"
proof -
  from assms have "set (existing_conversations db u u) = {}"
    unfolding set_existing_conversations by auto
  then have "select_existing_conversation srv db u u = None"
    by (simp add: select_existing_conversation_def limit_1_def)
  moreover have "insert_new_conversation srv db u u = Inl UniqueViolation"
    by (simp add: insert_new_conversation_def insert_participant_def Let_def)
  ultimately show ?thesis
    by (simp add: rpc_find_or_create_conversation_def find_or_create_conversation_def)
qed

text \<open>
  C8 at user 1 on a database without conversations.
\<close>

theorem C8_self_call_witness:
  "rpc_find_or_create_conversation server_a no_conversation_db 1 1
     = (Inl UniqueViolation, no_conversation_db)"
  using C8_self_call [of no_conversation_db 1 server_a]
  by (simp add: example_states)

text \<open>
  C8 as stated fails when \<open>u\<close> already shares a conversation with someone else. User
  1 shares conversation 10 with user 2 and is in no other conversation. Both joins of
  the \<open>SELECT\<close> match user 1's row, the count is 2, and the call for \<open>(1, 1)\<close> returns
  10.
\<close>

theorem C8_counterexample:
  "rpc_find_or_create_conversation server_b one_conversation_db 1 1
     = (Inr 10, one_conversation_db)
   \<and> map dc_id (direct_conversations one_conversation_db) = [10]
   \<and> map dp_user_id (participants_of one_conversation_db 10) = [1, 2]"
  by (simp add: foc_defs example_states participants_of_def)

section \<open>Properties of the policies and the trigger\<close>

lemmas chat_states = chat_db_def general_room_def private_room_def message_50_def
  message_51_def message_52_def post_in_def

lemma is_true_sql_or: "is_true (sql_or a b) \<longleftrightarrow> is_true a \<or> is_true b"
  by (cases "(a, b)" rule: sql_or.cases) (simp_all add: is_true_def)

lemma is_true_sql_and: "is_true (sql_and a b) \<longleftrightarrow> is_true a \<and> is_true b"
  by (cases "(a, b)" rule: sql_and.cases) (simp_all add: is_true_def)

lemma is_true_sql_eq: "is_true (sql_eq a b) \<longleftrightarrow> a \<noteq> None \<and> a = b"
  by (auto simp: is_true_def sql_eq_def split: option.splits)

lemma is_true_sql_in: "is_true (sql_in x ys) \<longleftrightarrow> (\<exists>v. x = Some v \<and> Some v \<in> set ys)"
proof (induction ys)
  case Nil
  then show ?case by (simp add: sql_in_def is_true_def)
next
  case (Cons y ys)
  have "sql_in x (y # ys) = sql_or (sql_eq x y) (sql_in x ys)"
    by (simp add: sql_in_def)
  with Cons show ?case by (auto simp: is_true_sql_or is_true_sql_eq)
qed

text \<open>
  What the policy expressions say of the rows they are given: on all the rows of the
  tables they say what their names and the comments beside them say.
\<close>

lemma own_room_ids_iff:
  "Some rid \<in> set (own_room_ids members (Some u))
     \<longleftrightarrow> (\<exists>rm \<in> set members. rm_room_id rm = rid \<and> rm_user_id rm = u)"
  by (auto simp: own_room_ids_def is_true_sql_eq)

lemma public_room_ids_iff:
  "Some rid \<in> set (public_room_ids rs)
     \<longleftrightarrow> (\<exists>r \<in> set rs. r_id r = rid \<and> r_is_private r = Some False)"
  by (auto simp: public_room_ids_def is_true_sql_eq)

lemma own_conversation_ids_iff:
  "Some c \<in> set (own_conversation_ids participants (Some u))
     \<longleftrightarrow> (\<exists>p \<in> set participants. dp_conversation_id p = c \<and> dp_user_id p = u)"
  by (auto simp: own_conversation_ids_def is_true_sql_eq)

lemma rooms_policies_say:
  "is_true (sql_or (public_rooms_policy r) (private_rooms_policy members (Some u) r))
     \<longleftrightarrow> r_is_private r = Some False
          \<or> (\<exists>rm \<in> set members. rm_room_id rm = r_id r \<and> rm_user_id rm = u)"
  by (auto simp: public_rooms_policy_def private_rooms_policy_def is_true_sql_or
      is_true_sql_in is_true_sql_eq own_room_ids_iff)

lemma messages_insert_check_says:
  "is_true (messages_insert_check (rooms db) (room_members db) (Some u) new)
     \<longleftrightarrow> may_post_in db u new"
  by (auto simp: messages_insert_check_def may_post_in_def is_true_sql_and is_true_sql_in
      is_true_sql_eq own_room_ids_iff public_room_ids_iff)

lemma direct_messages_select_policy_says:
  "is_true (direct_messages_select_policy (direct_participants db) (Some u) m)
     \<longleftrightarrow> participates db u (dm_conversation_id m)"
  by (simp add: direct_messages_select_policy_def participates_def is_true_sql_in
      own_conversation_ids_iff)

text \<open>
  But the policies never get to their rows: adding them to a statement comes back to a
  table that is on the list.
\<close>

lemma visible_room_members_under_rooms:
  assumes "Rooms \<in> set active"
  shows "visible_room_members active db uid = Inl InfiniteRecursion"
proof (cases "Room_members \<in> set active")
  case True
  then show ?thesis by (subst visible_room_members.simps) simp
next
  case False
  from assms have "visible_rooms (Room_members # active) db uid = Inl InfiniteRecursion"
    by (subst visible_rooms.simps) simp
  with False show ?thesis by (subst visible_room_members.simps) simp
qed

lemma visible_rooms_recursion: "visible_rooms active db uid = Inl InfiniteRecursion"
proof (cases "Rooms \<in> set active")
  case True
  then show ?thesis by (subst visible_rooms.simps) simp
next
  case False
  have "visible_room_members (Rooms # active) db uid = Inl InfiniteRecursion"
    by (rule visible_room_members_under_rooms) simp
  with False show ?thesis by (subst visible_rooms.simps) simp
qed

lemma visible_room_members_recursion:
  "visible_room_members active db uid = Inl InfiniteRecursion"
proof (cases "Room_members \<in> set active")
  case True
  then show ?thesis by (subst visible_room_members.simps) simp
next
  case False
  have "visible_rooms (Room_members # active) db uid = Inl InfiniteRecursion"
    by (rule visible_rooms_recursion)
  with False show ?thesis by (subst visible_room_members.simps) simp
qed

lemma visible_direct_participants_recursion:
  "visible_direct_participants active db uid = Inl InfiniteRecursion"
proof (cases "Direct_participants \<in> set active")
  case True
  then show ?thesis by (subst visible_direct_participants.simps) simp
next
  case False
  have "visible_direct_participants (Direct_participants # active) db uid
      = Inl InfiniteRecursion"
    by (subst visible_direct_participants.simps) simp
  with False show ?thesis by (subst visible_direct_participants.simps) simp
qed

lemma select_rooms_recursion: "select_rooms db uid = Inl InfiniteRecursion"
  by (simp add: select_rooms_def visible_rooms_recursion)

lemma insert_message_recursion: "insert_message db uid new = Inl InfiniteRecursion"
  by (simp add: insert_message_def visible_rooms_recursion)

lemma select_direct_messages_recursion:
  "select_direct_messages db uid = Inl InfiniteRecursion"
  by (simp add: select_direct_messages_def visible_direct_participants_recursion)

lemma insert_direct_message_recursion:
  "insert_direct_message now db uid new = Inl InfiniteRecursion"
  by (simp add: insert_direct_message_def visible_direct_participants_recursion)

text \<open>
  C3 does not hold of the migration. The policy on \<open>rooms\<close> reads \<open>room_members\<close>,
  whose second policy reads \<open>rooms\<close> again: for every database and every caller,
  \<open>SELECT * FROM rooms\<close> ends with 42P17 and returns no room.
\<close>

theorem C3_select_rooms_fails:
  "select_rooms db uid = Inl InfiniteRecursion"
  by (rule select_rooms_recursion)

text \<open>
  C3 on the example database: the claim has the public room 30 returned to user 3, and
  the \<open>SELECT\<close> of user 3 ends with 42P17.
\<close>

theorem C3_select_rooms_fails_witness:
  "general_room \<in> set (rooms chat_db)
   \<and> r_is_private general_room = Some False
   \<and> select_rooms chat_db (Some 3) = Inl InfiniteRecursion"
proof -
  have room: "general_room \<in> set (rooms chat_db)" "r_is_private general_room = Some False"
    by (simp_all add: chat_states)
  from C3_select_rooms_fails [of chat_db "Some 3"] room show ?thesis by blast
qed

text \<open>
  C4 does not hold of the migration. The \<open>WITH CHECK\<close> expression reads \<open>rooms\<close>, whose
  policy reads \<open>room_members\<close>, whose policy reads \<open>rooms\<close> again: for every database,
  every caller and every new row, \<open>INSERT INTO messages\<close> ends with 42P17, and the
  database is as before.
\<close>

theorem C4_insert_message_fails:
  "insert_message db uid new = Inl InfiniteRecursion
   \<and> after_statement db (insert_message db uid new) = db"
  by (simp add: insert_message_recursion after_statement_def)

text \<open>
  C4 on the example database: the claim permits user 1 to insert a message of their own
  into the public room 30, and the insert ends with 42P17; so does their insert into the
  private room 31, of which they are not a member, which the claim has refused by the
  policy. Nothing is stored in either case.
\<close>

theorem C4_insert_message_fails_witness:
  "may_post_in chat_db 1 (post_in 1 30)
   \<and> insert_message chat_db (Some 1) (post_in 1 30) = Inl InfiniteRecursion
   \<and> after_statement chat_db (insert_message chat_db (Some 1) (post_in 1 30)) = chat_db
   \<and> \<not> may_post_in chat_db 1 (post_in 1 31)
   \<and> insert_message chat_db (Some 1) (post_in 1 31) = Inl InfiniteRecursion
   \<and> after_statement chat_db (insert_message chat_db (Some 1) (post_in 1 31)) = chat_db"
proof -
  have may: "may_post_in chat_db 1 (post_in 1 30)" "\<not> may_post_in chat_db 1 (post_in 1 31)"
    by (simp_all add: may_post_in_def chat_states)
  from C4_insert_message_fails [of chat_db "Some 1" "post_in 1 30"]
    C4_insert_message_fails [of chat_db "Some 1" "post_in 1 31"] may
  show ?thesis by blast
qed

text \<open>
  C2 does not hold of the migration. The policy on \<open>direct_messages\<close> reads
  \<open>direct_participants\<close>, whose own policy reads \<open>direct_participants\<close> again: for
  every database and every caller, \<open>SELECT * FROM direct_messages\<close> ends with 42P17 and
  returns no message.
\<close>

theorem C2_select_direct_messages_fails:
  "select_direct_messages db uid = Inl InfiniteRecursion"
  by (rule select_direct_messages_recursion)

text \<open>
  C2 on the example database: the claim has message 50 of conversation 10 returned to
  user 1, who takes part in it, and the \<open>SELECT\<close> of user 1 ends with 42P17.
\<close>

theorem C2_select_direct_messages_fails_witness:
  "message_50 \<in> set (direct_messages chat_db)
   \<and> participates chat_db 1 (dm_conversation_id message_50)
   \<and> select_direct_messages chat_db (Some 1) = Inl InfiniteRecursion"
proof -
  have row: "message_50 \<in> set (direct_messages chat_db)"
    "participates chat_db 1 (dm_conversation_id message_50)"
    by (simp_all add: participates_def chat_states)
  from C2_select_direct_messages_fails [of chat_db "Some 1"] row show ?thesis by blast
qed

lemma at_most_one_row_with_key:
  "distinct (map dc_id cs) \<Longrightarrow> length [c \<leftarrow> cs. dc_id c = k] \<le> 1"
proof (induction cs)
  case Nil
  then show ?case by simp
next
  case (Cons c cs)
  then have "dc_id c = k \<Longrightarrow> [c \<leftarrow> cs. dc_id c = k] = []"
    by (auto simp: filter_empty_conv image_iff)
  with Cons show ?case by auto
qed

text \<open>
  C9. The trigger function, for every database and every inserted row: it leaves the
  number and order of the conversation rows, and each row's \<open>id\<close> and \<open>created_at\<close>, as
  they are; a row whose \<open>id\<close> is not the message's \<open>conversation_id\<close> is unchanged, and
  a row with that \<open>id\<close> gets \<open>updated_at = now\<close>. There is at most one such row when the
  ids are distinct, as the primary key makes them. No other table changes.
\<close>

theorem C9_trigger_frame:
  "length (direct_conversations (update_conversation_timestamp now db new))
     = length (direct_conversations db)
   \<and> (\<forall>i < length (direct_conversations db).
        dc_id (direct_conversations (update_conversation_timestamp now db new) ! i)
          = dc_id (direct_conversations db ! i)
        \<and> dc_created_at (direct_conversations (update_conversation_timestamp now db new) ! i)
          = dc_created_at (direct_conversations db ! i)
        \<and> (if dc_id (direct_conversations db ! i) = dm_conversation_id new
           then dc_updated_at (direct_conversations (update_conversation_timestamp now db new) ! i)
                  = now
           else direct_conversations (update_conversation_timestamp now db new) ! i
                  = direct_conversations db ! i))
   \<and> (distinct (map dc_id (direct_conversations db)) \<longrightarrow>
        length [c \<leftarrow> direct_conversations db. dc_id c = dm_conversation_id new] \<le> 1)
   \<and> update_conversation_timestamp now db new
       = db\<lparr>direct_conversations :=
              direct_conversations (update_conversation_timestamp now db new)\<rparr>"
  using at_most_one_row_with_key [of "direct_conversations db" "dm_conversation_id new"]
  by (auto simp: update_conversation_timestamp_def)

text \<open>
  C9 on the example database, for message 52 of conversation 10: row 0 (conversation 10)
  gets the new time and keeps its creation time; row 1 is unchanged.
\<close>

theorem C9_trigger_frame_witness:
  "dc_updated_at (direct_conversations (update_conversation_timestamp 300 chat_db message_52) ! 0)
     = 300
   \<and> dc_created_at (direct_conversations (update_conversation_timestamp 300 chat_db message_52) ! 0)
     = 100
   \<and> direct_conversations (update_conversation_timestamp 300 chat_db message_52) ! 1
     = direct_conversations chat_db ! 1
   \<and> length [c \<leftarrow> direct_conversations chat_db. dc_id c = dm_conversation_id message_52] \<le> 1"
proof -
  have d: "distinct (map dc_id (direct_conversations chat_db))"
    by (simp add: chat_states)
  have l: "(0::nat) < length (direct_conversations chat_db)"
    "(1::nat) < length (direct_conversations chat_db)"
    by (simp_all add: chat_states)
  have k: "dc_id (direct_conversations chat_db ! 0) = dm_conversation_id message_52"
    "dc_id (direct_conversations chat_db ! 1) \<noteq> dm_conversation_id message_52"
    "dc_created_at (direct_conversations chat_db ! 0) = 100"
    by (simp_all add: chat_states)
  note t = C9_trigger_frame [of 300 chat_db message_52]
  note rows = t [THEN conjunct2, THEN conjunct1, rule_format]
  from rows [OF l(1)] k(1,3) have r0:
    "dc_updated_at (direct_conversations (update_conversation_timestamp 300 chat_db message_52) ! 0)
       = 300"
    "dc_created_at (direct_conversations (update_conversation_timestamp 300 chat_db message_52) ! 0)
       = 100"
    by simp_all
  from rows [OF l(2)] k(2) have r1:
    "direct_conversations (update_conversation_timestamp 300 chat_db message_52) ! 1
       = direct_conversations chat_db ! 1"
    by simp
  from t [THEN conjunct2, THEN conjunct2, THEN conjunct1] d have one:
    "length [c \<leftarrow> direct_conversations chat_db. dc_id c = dm_conversation_id message_52] \<le> 1"
    by simp
  from r0 r1 one show ?thesis by simp
qed

end
